theory Spec2Isabelle
  imports Complex_Main "HOL-Library.Sublist"
begin

section \<open>Text primitives\<close>

text \<open>
  Python strings are modelled as \<^typ>\<open>string\<close>, read as ASCII text. Characters that
  cannot be written inside a literal are given by their code.
\<close>

definition backslash :: char where
  "backslash = CHR 0x5C"

definition newline :: char where
  "newline = CHR 0x0A"

text \<open>\<^verbatim>\<open>sep.join(xs)\<close>\<close>

fun join :: "string \<Rightarrow> string list \<Rightarrow> string" where
  "join sep [] = []"
| "join sep [x] = x"
| "join sep (x # y # ys) = x @ sep @ join sep (y # ys)"

text \<open>\<^verbatim>\<open>text.replace(old, new)\<close> for a one-character \<^verbatim>\<open>old\<close>: every occurrence, left to right.\<close>

definition replace :: "char \<Rightarrow> string \<Rightarrow> string \<Rightarrow> string" where
  "replace old new s = concat (map (\<lambda>c. if c = old then new else [c]) s)"

text \<open>
  The character classes of \<^verbatim>\<open>re\<close> and of \<^verbatim>\<open>str.strip\<close>, on ASCII: \<^verbatim>\<open>\s\<close> and the
  characters \<^verbatim>\<open>strip()\<close> removes (tab, line feed, vertical tab, form feed, carriage
  return, the four separators 0x1C to 0x1F, space), \<^verbatim>\<open>\d\<close> and \<^verbatim>\<open>\w\<close>.
\<close>

definition is_space :: "char \<Rightarrow> bool" where
  "is_space c = (c \<in> set [CHR 0x09, CHR 0x0A, CHR 0x0B, CHR 0x0C, CHR 0x0D,
                           CHR 0x1C, CHR 0x1D, CHR 0x1E, CHR 0x1F, CHR 0x20])"

definition is_digit :: "char \<Rightarrow> bool" where
  "is_digit c = (c \<in> set ''0123456789'')"

definition is_word :: "char \<Rightarrow> bool" where
  "is_word c = (c \<in> set ''abcdefghijklmnopqrstuvwxyzABCDEFGHIJKLMNOPQRSTUVWXYZ0123456789_'')"

text \<open>\<^verbatim>\<open>str.lower()\<close>\<close>

definition lower_chr :: "char \<Rightarrow> char" where
  "lower_chr c =
    (case map_of (zip ''ABCDEFGHIJKLMNOPQRSTUVWXYZ'' ''abcdefghijklmnopqrstuvwxyz'') c of
       Some l \<Rightarrow> l
     | None \<Rightarrow> c)"

definition lower :: "string \<Rightarrow> string" where
  "lower s = map lower_chr s"

text \<open>\<^verbatim>\<open>str.strip()\<close>\<close>

definition strip :: "string \<Rightarrow> string" where
  "strip s = rev (dropWhile is_space (rev (dropWhile is_space s)))"

text \<open>\<^verbatim>\<open>str(n)\<close> and \<^verbatim>\<open>int(s)\<close> for a non-negative integer in decimal.\<close>

definition digit_chr :: "nat \<Rightarrow> char" where
  "digit_chr d = ''0123456789'' ! d"

fun str_nat :: "nat \<Rightarrow> string" where
  "str_nat n = (if n < 10 then [digit_chr n] else str_nat (n div 10) @ [digit_chr (n mod 10)])"

declare str_nat.simps [simp del]

definition digit_val :: "char \<Rightarrow> nat" where
  "digit_val c = (case map_of (zip ''0123456789'' [0 ..< 10]) c of Some d \<Rightarrow> d | None \<Rightarrow> 0)"

definition int_of_str :: "string \<Rightarrow> nat" where
  "int_of_str s = foldl (\<lambda>n c. 10 * n + digit_val c) 0 s"

section \<open>Regular expressions\<close>

text \<open>
  The fragment of \<^verbatim>\<open>re\<close> the source uses: literals and character classes, sequence,
  alternation, greedy \<^verbatim>\<open>*\<close> and \<^verbatim>\<open>+\<close> on a character class, greedy \<^verbatim>\<open>?\<close>, and capturing
  groups (none nested). \<^verbatim>\<open>ms p s\<close> lists every way \<^verbatim>\<open>p\<close> matches a prefix of \<^verbatim>\<open>s\<close>, as the pair
  of the captured groups and the rest of \<^verbatim>\<open>s\<close>, in the order in which the backtracking
  matcher tries them; the first one is the match \<^verbatim>\<open>re\<close> reports.
\<close>

datatype regex =
    Eps
  | Atom "char \<Rightarrow> bool"
  | Seq regex regex
  | Alt regex regex
  | Star "char \<Rightarrow> bool"
  | Plus "char \<Rightarrow> bool"
  | Opt regex
  | Group regex

text \<open>The rests of \<^verbatim>\<open>s\<close> after a run of characters of the class, the longest run first.\<close>

fun runs :: "(char \<Rightarrow> bool) \<Rightarrow> string \<Rightarrow> string list" where
  "runs c [] = [[]]"
| "runs c (x # xs) = (if c x then runs c xs @ [x # xs] else [x # xs])"

fun ms :: "regex \<Rightarrow> string \<Rightarrow> (string list \<times> string) list" where
  "ms Eps s = [([], s)]"
| "ms (Atom c) s = (case s of [] \<Rightarrow> [] | x # xs \<Rightarrow> if c x then [([], xs)] else [])"
| "ms (Seq a b) s = concat (map (\<lambda>(g, r). map (\<lambda>(g', r'). (g @ g', r')) (ms b r)) (ms a s))"
| "ms (Alt a b) s = ms a s @ ms b s"
| "ms (Star c) s = map (Pair []) (runs c s)"
| "ms (Plus c) s = map (Pair []) (butlast (runs c s))"
| "ms (Opt a) s = ms a s @ [([], s)]"
| "ms (Group a) s = map (\<lambda>(g, r). (take (length s - length r) s # g, r)) (ms a s)"

text \<open>\<^verbatim>\<open>re.match\<close>: the groups and the text after the match.\<close>

definition re_match :: "regex \<Rightarrow> string \<Rightarrow> (string list \<times> string) option" where
  "re_match p s = (case ms p s of [] \<Rightarrow> None | m # _ \<Rightarrow> Some m)"

text \<open>
  \<^verbatim>\<open>re.search\<close>: the leftmost match, as the text before it, the matched text, the groups and
  the text after it.
\<close>

fun re_search :: "regex \<Rightarrow> string \<Rightarrow> (string \<times> string \<times> string list \<times> string) option" where
  "re_search p [] =
    (case re_match p [] of None \<Rightarrow> None | Some (g, r) \<Rightarrow> Some ([], [], g, []))"
| "re_search p (x # xs) =
    (case re_match p (x # xs) of
       Some (g, r) \<Rightarrow> Some ([], take (length (x # xs) - length r) (x # xs), g, r)
     | None \<Rightarrow> map_option (\<lambda>(b, m, g, a). (x # b, m, g, a)) (re_search p xs))"

text \<open>
  \<^verbatim>\<open>re.sub\<close> and \<^verbatim>\<open>re.split\<close>, for patterns that match no empty string (every pattern the
  source passes to them): the text is scanned left to right, and after a match the scan
  goes on behind it. The counter is the number of characters of the current match still to
  be skipped.
\<close>

fun sub_go :: "regex \<Rightarrow> string \<Rightarrow> nat \<Rightarrow> string \<Rightarrow> string" where
  "sub_go p repl k [] = []"
| "sub_go p repl (Suc k) (x # xs) = sub_go p repl k xs"
| "sub_go p repl 0 (x # xs) =
    (case re_match p (x # xs) of
       None \<Rightarrow> x # sub_go p repl 0 xs
     | Some (g, r) \<Rightarrow>
         (if length r < length (x # xs)
          then repl @ sub_go p repl (length xs - length r) xs
          else x # sub_go p repl 0 xs))"

definition re_sub :: "regex \<Rightarrow> string \<Rightarrow> string \<Rightarrow> string" where
  "re_sub p repl s = sub_go p repl 0 s"

fun split_go :: "regex \<Rightarrow> nat \<Rightarrow> string \<Rightarrow> string \<Rightarrow> string list" where
  "split_go p k cur [] = [cur]"
| "split_go p (Suc k) cur (x # xs) = split_go p k cur xs"
| "split_go p 0 cur (x # xs) =
    (case re_match p (x # xs) of
       None \<Rightarrow> split_go p 0 (cur @ [x]) xs
     | Some (g, r) \<Rightarrow>
         (if length r < length (x # xs)
          then cur # split_go p (length xs - length r) [] xs
          else split_go p 0 (cur @ [x]) xs))"

definition re_split :: "regex \<Rightarrow> string \<Rightarrow> string list" where
  "re_split p s = split_go p 0 [] s"

text \<open>A literal text, and a literal text under \<^verbatim>\<open>re.I\<close>.\<close>

fun lit :: "string \<Rightarrow> regex" where
  "lit [] = Eps"
| "lit (c # cs) = Seq (Atom (\<lambda>x. x = c)) (lit cs)"

fun lit_i :: "string \<Rightarrow> regex" where
  "lit_i [] = Eps"
| "lit_i (c # cs) = Seq (Atom (\<lambda>x. lower_chr x = lower_chr c)) (lit_i cs)"

section \<open>converter.py: LatexConverter\<close>

text \<open>
  \<^verbatim>\<open>clean_latex_text\<close>: ten successive \<^verbatim>\<open>replace\<close> calls, in the order of the source; each
  works on the result of the one before.
\<close>

definition clean_latex_text :: "string \<Rightarrow> string" where
  "clean_latex_text text0 =
    (let text1 = replace (CHR ''&'') (backslash # ''&'') text0;
         text2 = replace (CHR ''%'') (backslash # ''%'') text1;
         text3 = replace (CHR ''$'') (backslash # ''$'') text2;
         text4 = replace (CHR ''#'') (backslash # ''#'') text3;
         text5 = replace (CHR ''_'') (backslash # ''_'') text4;
         text6 = replace (CHR ''{'') (backslash # ''{'') text5;
         text7 = replace (CHR ''}'') (backslash # ''}'') text6;
         text8 = replace (CHR ''~'') (backslash # ''textasciitilde'') text7;
         text9 = replace (CHR ''^'') (backslash # ''textasciicircum'') text8
     in replace backslash (backslash # ''textbackslash'') text9)"

record reference =
  ref_id :: string
  citation :: string

text \<open>
  The de-duplication loop of \<^verbatim>\<open>format_references\<close>: the state is the pair
  \<^verbatim>\<open>(unique_refs, seen)\<close>.
\<close>

fun unique_loop :: "reference list \<Rightarrow> reference list \<times> string set \<Rightarrow> reference list \<times> string set" where
  "unique_loop [] st = st"
| "unique_loop (r # rs) (unique_refs, seen) =
    (if citation r \<notin> seen
     then unique_loop rs (unique_refs @ [r], insert (citation r) seen)
     else unique_loop rs (unique_refs, seen))"

definition unique_refs :: "reference list \<Rightarrow> reference list" where
  "unique_refs refs = fst (unique_loop refs ([], {}))"

definition bibitem :: "reference \<Rightarrow> string" where
  "bibitem r = backslash # ''bibitem{ref'' @ ref_id r @ ''} '' @ clean_latex_text (citation r)"

text \<open>The entries joined by \<^verbatim>\<open>format_references\<close>, one per kept reference.\<close>

definition bib_entries :: "reference list \<Rightarrow> string list" where
  "bib_entries refs = map bibitem (unique_refs refs)"

definition format_references :: "reference list \<Rightarrow> string" where
  "format_references refs = (if refs = [] then [] else join [newline] (bib_entries refs))"

section \<open>extractors.py: the output model\<close>

text \<open>
  The dictionaries the extractors build. A content dictionary is discriminated by its
  \<^verbatim>\<open>type\<close> entry, which becomes the constructor. A table cell is of type \<^typ>\<open>'c\<close> and an
  entry of \<^verbatim>\<open>metadata["figures"]\<close> of type \<^typ>\<open>'f\<close>: the two extractors fill them differently.
\<close>

record author =
  name :: string
  role :: string
  affiliation :: string
  email :: string

record figure_info =
  fig_id :: string
  filename :: string
  fig_caption :: string
  fig_path :: string

record 'c table_data =
  label :: string
  header :: "'c list"
  rows :: "'c list list"

datatype 'c node =
    Section string "'c node list"
  | Subsection string "'c node list"
  | Paragraph string
  | Figure string string string
  | ListItems "string list"
  | Table "'c table_data"

record 'f metadata =
  title :: string
  authors :: "author list"
  abstract :: string
  "keywords" :: "string list"
  figures :: "'f list"

record ('f, 'c) content =
  metadata :: "'f metadata"
  body :: "'c node list"
  references :: "reference list"
  tables :: "'c table_data list"

text \<open>
  What an extraction does besides returning: the image files written, as pairs of path and
  bytes, and the lines printed.
\<close>

record effects =
  saved :: "(string \<times> string) list"
  printed :: "string list"

definition media_dir :: string where
  "media_dir = ''extracted_images''"

text \<open>\<^verbatim>\<open>os.path.join(media_dir, filename)\<close> for a relative file name, with the POSIX separator.\<close>

definition path_join :: "string \<Rightarrow> string \<Rightarrow> string" where
  "path_join d f = d @ ''/'' @ f"

section \<open>extractors.py: extract_docx\<close>

text \<open>
  The document as \<^verbatim>\<open>python-docx\<close> presents it: the paragraphs with text and style name, the
  tables as rows of cell texts, and the relationships of the document part in the order of
  \<^verbatim>\<open>rels.values()\<close>, each with its type and the bytes of its target part.
\<close>

record para =
  para_text :: string
  para_style :: string

record relationship =
  reltype :: string
  target_part :: string

record document =
  paragraphs :: "para list"
  doc_tables :: "string list list list"
  rels :: "relationship list"

text \<open>The constant \<^verbatim>\<open>RELATIONSHIP_TYPE.IMAGE\<close> of \<^verbatim>\<open>python-docx\<close>.\<close>

definition RT_IMAGE :: string where
  "RT_IMAGE = ''http://schemas.openxmlformats.org/officeDocument/2006/relationships/image''"

text \<open>
  The imaging library, as far as \<^verbatim>\<open>save_image\<close> sees it: \<^verbatim>\<open>Image.open\<close> on the bytes raises
  (\<open>None\<close>) or gives an image with its \<^verbatim>\<open>format\<close>, which may be \<^verbatim>\<open>None\<close>; \<^verbatim>\<open>img.save(path)\<close>
  succeeds or raises.
\<close>

record imaging =
  image_open :: "string \<Rightarrow> string option option"
  image_save :: "string \<Rightarrow> string \<Rightarrow> bool"

definition is_heading :: "para \<Rightarrow> bool" where
  "is_heading para = prefix ''heading'' (lower (para_style para))"

definition heading_re :: regex where
  "heading_re = Seq (lit ''heading'') (Seq (Star is_space) (Group (Plus is_digit)))"

definition get_heading_level :: "para \<Rightarrow> nat" where
  "get_heading_level para =
    (case re_match heading_re (lower (para_style para)) of
       Some (g # _, _) \<Rightarrow> int_of_str g
     | _ \<Rightarrow> 1)"

definition clean_text :: "string \<Rightarrow> string" where
  "clean_text t = strip (re_sub (Plus is_space) '' '' t)"

text \<open>
  \<^verbatim>\<open>save_image\<close>: everything inside the \<^verbatim>\<open>try\<close>; a raise of \<^verbatim>\<open>Image.open\<close> or of \<^verbatim>\<open>img.save\<close>
  is caught, a line is printed and \<^verbatim>\<open>None\<close> is returned.
\<close>

definition save_image ::
  "imaging \<Rightarrow> string \<Rightarrow> nat \<Rightarrow> string option \<Rightarrow> effects \<Rightarrow> figure_info option \<times> effects" where
  "save_image pil data index caption fx =
    (case image_open pil data of
       None \<Rightarrow> (None, fx\<lparr>printed := printed fx @ [''Error saving image'']\<rparr>)
     | Some fmt \<Rightarrow>
         (let ext = (case fmt of
                       None \<Rightarrow> ''png''
                     | Some f \<Rightarrow> if f = [] then ''png'' else lower f);
              fname = ''figure_'' @ str_nat index @ ''.'' @ ext;
              path = path_join media_dir fname
          in if image_save pil data path
             then (Some \<lparr>fig_id = ''fig_'' @ str_nat index,
                         filename = fname,
                         fig_caption = (case caption of
                                          None \<Rightarrow> ''Figure '' @ str_nat index
                                        | Some c \<Rightarrow> if c = [] then ''Figure '' @ str_nat index else c),
                         fig_path = path\<rparr>,
                   fx\<lparr>saved := saved fx @ [(path, data)]\<rparr>)
             else (None, fx\<lparr>printed := printed fx @ [''Error saving image'']\<rparr>)))"

subsection \<open>Title and author block\<close>

text \<open>
  The cursor \<^verbatim>\<open>i\<close> into \<^verbatim>\<open>paras\<close> is the list of the paragraphs from \<^verbatim>\<open>i\<close> on. The first
  loop skips the paragraphs whose text is blank; the next one, if any, is the title.
\<close>

definition skip_blank :: "para list \<Rightarrow> para list" where
  "skip_blank ps = dropWhile (\<lambda>p. strip (para_text p) = []) ps"

definition read_title :: "para list \<Rightarrow> string \<times> para list" where
  "read_title ps =
    (case skip_blank ps of
       [] \<Rightarrow> ([], [])
     | p # rest \<Rightarrow> (clean_text (para_text p), rest))"

definition abstract_re :: regex where
  "abstract_re = lit_i ''abstract''"

fun author_block_loop :: "para list \<Rightarrow> string list \<Rightarrow> string list \<times> para list" where
  "author_block_loop [] author_block = (author_block, [])"
| "author_block_loop (p # ps) author_block =
    (let text = clean_text (para_text p) in
     if text = [] then author_block_loop ps author_block
     else if re_match abstract_re text \<noteq> None \<or> is_heading p then (author_block, p # ps)
     else author_block_loop ps (author_block @ [text]))"

definition email_chr :: "char \<Rightarrow> bool" where
  "email_chr c = (is_word c \<or> c \<in> set ''.-'')"

definition email_re :: regex where
  "email_re =
    Seq (Plus email_chr) (Seq (lit ''@'') (Seq (Plus email_chr) (Seq (lit ''.'') (Plus is_word))))"

definition comma_semicolon_re :: regex where
  "comma_semicolon_re = Alt (lit '','') (lit '';'')"

text \<open>The email found in an author line, the line without its emails, and its parts.\<close>

definition author_email :: "string \<Rightarrow> string" where
  "author_email author_line =
    (case re_search email_re author_line of Some (b, m, g, a) \<Rightarrow> m | None \<Rightarrow> [])"

definition author_clean :: "string \<Rightarrow> string" where
  "author_clean author_line = strip (re_sub email_re [] author_line)"

definition author_parts :: "string \<Rightarrow> string list" where
  "author_parts author_line = map strip (re_split comma_semicolon_re (author_clean author_line))"

text \<open>The body of the loop over \<^verbatim>\<open>author_block\<close>: the dictionary appended for one line.\<close>

definition parse_author :: "string \<Rightarrow> author" where
  "parse_author author_line =
    (let parts = author_parts author_line in
     if length parts \<ge> 2
     then \<lparr>name = parts ! 0,
           role = (if length parts > 2 then parts ! 1 else []),
           affiliation = (if length parts > 2 then join '', '' (drop 2 parts) else parts ! 1),
           email = author_email author_line\<rparr>
     else \<lparr>name = author_clean author_line,
           role = [],
           affiliation = [],
           email = author_email author_line\<rparr>)"

subsection \<open>Abstract and keywords\<close>

record abstract_state =
  in_abstract :: bool
  in_keywords :: bool
  abstract_lines :: "string list"
  keywords_acc :: "string list"
  abstract_out :: string

definition keywords_re :: regex where
  "keywords_re =
    Seq (Group (Alt (lit_i ''keywords'') (Alt (lit_i ''key terms'') (lit_i ''index terms''))))
      (Seq (Star is_space) (Opt (Atom (\<lambda>c. c \<in> set '':.''))))"

definition split_keywords :: "string \<Rightarrow> string list" where
  "split_keywords text = filter (\<lambda>kw. kw \<noteq> []) (map strip (re_split (Atom (\<lambda>c. c \<in> set '',;'')) text))"

text \<open>
  The second \<^verbatim>\<open>while\<close> loop. A heading met in the abstract or in the keywords clears the
  flag and is looked at again (\<^verbatim>\<open>continue\<close> without \<^verbatim>\<open>i += 1\<close>).
\<close>

function abstract_loop :: "para list \<Rightarrow> abstract_state \<Rightarrow> abstract_state \<times> para list" where
  "abstract_loop [] st = (st, [])"
| "abstract_loop (p # ps) st =
    (let text = clean_text (para_text p) in
     if text = [] then abstract_loop ps st
     else if re_match abstract_re text \<noteq> None
       then abstract_loop ps (st\<lparr>in_abstract := True\<rparr>)
     else if in_abstract st \<and> re_match keywords_re text \<noteq> None
       then abstract_loop ps
              (st\<lparr>abstract_out := join '' '' (abstract_lines st),
                  in_abstract := False, in_keywords := True\<rparr>)
     else if in_abstract st
       then (if is_heading p
             then abstract_loop (p # ps)
                    (st\<lparr>abstract_out := join '' '' (abstract_lines st), in_abstract := False\<rparr>)
             else abstract_loop ps (st\<lparr>abstract_lines := abstract_lines st @ [text]\<rparr>))
     else if in_keywords st
       then (if is_heading p
             then abstract_loop (p # ps) (st\<lparr>in_keywords := False\<rparr>)
             else abstract_loop ps (st\<lparr>keywords_acc := keywords_acc st @ split_keywords text\<rparr>))
     else (st, p # ps))"
  by pat_completeness auto
termination
  by (relation "measure (\<lambda>(ps, st). 3 * length ps + (if in_abstract st then 1 else 0)
                                      + (if in_keywords st then 1 else 0))") auto

declare abstract_loop.simps [simp del]

subsection \<open>Body\<close>

record ('f, 'c) body_state =
  body_acc :: "'c node list"
  current_section :: "'c node option"
  current_subsection :: "nat option"
  fig_count :: nat
  figures_acc :: "'f list"
  fx :: effects

definition fig_re :: regex where
  "fig_re =
    Seq (Alt (lit_i ''figure'') (lit_i ''fig''))
      (Seq (Star (\<lambda>c. is_space c \<or> c = CHR ''.''))
        (Seq (Group (Plus is_digit))
          (Seq (Plus (\<lambda>c. is_space c \<or> c \<in> set '':.-''))
            (Group (Star (\<lambda>c. c \<noteq> newline))))))"

text \<open>
  \<^verbatim>\<open>current_subsection\<close> is a reference to a dictionary that is an element of the content of
  \<^verbatim>\<open>current_section\<close>; it is kept as the position of that element. \<^verbatim>\<open>on_container f\<close> applies
  \<^verbatim>\<open>f\<close> to the content list of the container the source chooses: the subsection if there
  is one, the section otherwise.
\<close>

fun on_content :: "('c node list \<Rightarrow> 'c node list) \<Rightarrow> 'c node \<Rightarrow> 'c node" where
  "on_content f (Section h c) = Section h (f c)"
| "on_content f (Subsection h c) = Subsection h (f c)"
| "on_content f n = n"

fun on_container :: "('c node list \<Rightarrow> 'c node list) \<Rightarrow> 'c node \<Rightarrow> nat option \<Rightarrow> 'c node" where
  "on_container f sec None = on_content f sec"
| "on_container f sec (Some k) = on_content (\<lambda>c. if k < length c then c[k := on_content f (c ! k)] else c) sec"

definition append_item :: "'c node \<Rightarrow> 'c node list \<Rightarrow> 'c node list" where
  "append_item x c = c @ [x]"

text \<open>A list paragraph extends the list that ends the container, or starts a new one.\<close>

definition append_list_item :: "string \<Rightarrow> 'c node list \<Rightarrow> 'c node list" where
  "append_list_item item c =
    (if c = [] then [ListItems [item]]
     else (case last c of
             ListItems items \<Rightarrow> butlast c @ [ListItems (items @ [item])]
           | _ \<Rightarrow> c @ [ListItems [item]]))"

text \<open>
  The test for a list paragraph. The bullet glyph U+2022 is not an ASCII character, so of
  the three prefixes only \<^verbatim>\<open>-\<close> and \<^verbatim>\<open>*\<close> remain, and \<^verbatim>\<open>lstrip\<close> removes \<^verbatim>\<open>-\<close>, \<^verbatim>\<open>*\<close> and spaces.
\<close>

definition is_list_para :: "para \<Rightarrow> string \<Rightarrow> bool" where
  "is_list_para para text =
    (prefix ''list'' (lower (para_style para))
     \<or> (case text of [] \<Rightarrow> False | c # _ \<Rightarrow> c \<in> set ''-*''))"

definition list_item_text :: "string \<Rightarrow> string" where
  "list_item_text text = strip (dropWhile (\<lambda>c. c \<in> set ''-* '') text)"

text \<open>The first relationship of type image, whatever has been done with it before.\<close>

definition first_image_rel :: "relationship list \<Rightarrow> relationship option" where
  "first_image_rel rs = find (\<lambda>rel. reltype rel = RT_IMAGE) rs"

text \<open>One turn of the third \<^verbatim>\<open>while\<close> loop, on the paragraph under the cursor.\<close>

definition heading_step ::
  "string \<Rightarrow> nat \<Rightarrow> (figure_info, 'c) body_state \<Rightarrow> (figure_info, 'c) body_state" where
  "heading_step text level st =
    (if level = 1
     then st\<lparr>body_acc := (case current_section st of
                            Some sec \<Rightarrow> body_acc st @ [sec]
                          | None \<Rightarrow> body_acc st),
             current_section := Some (Section text []),
             current_subsection := None\<rparr>
     else if level = 2
     then (case current_section st of
             Some sec \<Rightarrow>
               st\<lparr>current_section := Some (on_content (append_item (Subsection text [])) sec),
                  current_subsection := (case sec of
                                           Section h c \<Rightarrow> Some (length c)
                                         | _ \<Rightarrow> None)\<rparr>
           | None \<Rightarrow>
               st\<lparr>current_section := Some (Section ''Untitled Section'' [Subsection text []]),
                  current_subsection := Some 0\<rparr>)
     else st)"

definition figure_step ::
  "imaging \<Rightarrow> relationship list \<Rightarrow> string \<Rightarrow> string \<Rightarrow>
   (figure_info, 'c) body_state \<Rightarrow> (figure_info, 'c) body_state" where
  "figure_step pil rs fig_num caption st =
    (let (image_info, fx') =
           (case first_image_rel rs of
              Some rel \<Rightarrow>
                save_image pil (target_part rel) (fig_count st)
                  (Some (''Figure '' @ fig_num @ '': '' @ caption)) (fx st)
            | None \<Rightarrow> (None, fx st))
     in case image_info of
          None \<Rightarrow> st\<lparr>fx := fx'\<rparr>
        | Some info \<Rightarrow>
            st\<lparr>figures_acc := figures_acc st @ [info],
               fig_count := fig_count st + 1,
               current_section :=
                 map_option
                   (\<lambda>sec. on_container (append_item (Figure (''Fig'' @ fig_num) caption (fig_path info)))
                            sec (current_subsection st))
                   (current_section st),
               fx := fx'\<rparr>)"

definition text_step ::
  "para \<Rightarrow> string \<Rightarrow> (figure_info, 'c) body_state \<Rightarrow> (figure_info, 'c) body_state" where
  "text_step para text st =
    (let sec = (case current_section st of
                  Some sec \<Rightarrow> sec
                | None \<Rightarrow> Section ''Introduction'' []);
         f = (if is_list_para para text
              then append_list_item (list_item_text text)
              else append_item (Paragraph text))
     in st\<lparr>current_section := Some (on_container f sec (current_subsection st))\<rparr>)"

definition body_step ::
  "imaging \<Rightarrow> relationship list \<Rightarrow> (figure_info, 'c) body_state \<Rightarrow> para \<Rightarrow>
   (figure_info, 'c) body_state" where
  "body_step pil rs st para =
    (let text = clean_text (para_text para) in
     if text = [] then st
     else if is_heading para then heading_step text (get_heading_level para) st
     else (case re_match fig_re text of
             Some ([fig_num, cap], _) \<Rightarrow> figure_step pil rs fig_num (strip cap) st
           | _ \<Rightarrow> text_step para text st))"

definition body_loop ::
  "imaging \<Rightarrow> relationship list \<Rightarrow> para list \<Rightarrow> (figure_info, 'c) body_state \<Rightarrow>
   (figure_info, 'c) body_state" where
  "body_loop pil rs ps st = foldl (body_step pil rs) st ps"

text \<open>After the loop the open section, if any, is appended to the body.\<close>

definition flush_section :: "(figure_info, 'c) body_state \<Rightarrow> 'c node list" where
  "flush_section st =
    (case current_section st of
       Some sec \<Rightarrow> body_acc st @ [sec]
     | None \<Rightarrow> body_acc st)"

subsection \<open>Tables\<close>

text \<open>The state of the loop over \<^verbatim>\<open>doc.tables\<close>: \<^verbatim>\<open>content["tables"]\<close>, \<^verbatim>\<open>content["body"]\<close>, \<^verbatim>\<open>table_count\<close>.\<close>

definition table_step ::
  "string table_data list \<times> string node list \<times> nat \<Rightarrow> string list list \<Rightarrow>
   string table_data list \<times> string node list \<times> nat" where
  "table_step st table =
    (case st of (tbls, bdy, table_count) \<Rightarrow>
       (case table of
          [] \<Rightarrow> (tbls, bdy, table_count)
        | header_row # data_rows \<Rightarrow>
            (let table_data = \<lparr>label = ''Table'' @ str_nat table_count,
                               header = map clean_text header_row,
                               rows = map (map clean_text) data_rows\<rparr>
             in (tbls @ [table_data],
                 (if bdy \<noteq> []
                  then butlast bdy @ [on_content (append_item (Table table_data)) (last bdy)]
                  else [Section ''Tables'' [Table table_data]]),
                 table_count + 1))))"

definition table_loop ::
  "string list list list \<Rightarrow> string node list \<Rightarrow> string table_data list \<times> string node list \<times> nat" where
  "table_loop ts bdy = foldl table_step ([], bdy, 1) ts"

subsection \<open>References\<close>

definition references_re :: regex where
  "references_re = Seq (lit_i ''reference'') (Opt (lit_i ''s''))"

text \<open>The index of the first paragraph that matches, counted from \<^verbatim>\<open>j\<close>.\<close>

fun find_ref_section :: "para list \<Rightarrow> nat \<Rightarrow> nat option" where
  "find_ref_section [] j = None"
| "find_ref_section (para # ps) j =
    (if re_match references_re (clean_text (para_text para)) \<noteq> None then Some j
     else find_ref_section ps (Suc j))"

fun refs_loop :: "para list \<Rightarrow> reference list \<Rightarrow> nat \<Rightarrow> reference list" where
  "refs_loop [] refs n = refs"
| "refs_loop (para # ps) refs n =
    (let text = clean_text (para_text para) in
     if text = [] then refs_loop ps refs n
     else if is_heading para then refs
     else refs_loop ps (refs @ [\<lparr>ref_id = str_nat n, citation = text\<rparr>]) (n + 1))"

text \<open>\<^verbatim>\<open>if ref_section:\<close> is false for \<^verbatim>\<open>None\<close> and for the index 0.\<close>

definition extract_references :: "para list \<Rightarrow> reference list" where
  "extract_references paras =
    (case find_ref_section paras 0 of
       None \<Rightarrow> []
     | Some ref_section \<Rightarrow>
         if ref_section \<noteq> 0 then refs_loop (drop (ref_section + 1) paras) [] 1 else [])"

subsection \<open>The extractor\<close>

definition extract_docx :: "imaging \<Rightarrow> document \<Rightarrow> (figure_info, string) content \<times> effects" where
  "extract_docx pil doc =
    (let paras = paragraphs doc;
         (ttl, ps1) = read_title paras;
         (author_block, ps2) = author_block_loop ps1 [];
         (ast, ps3) = abstract_loop ps2
                        \<lparr>in_abstract = False, in_keywords = False, abstract_lines = [],
                         keywords_acc = [], abstract_out = []\<rparr>;
         bst = body_loop pil (rels doc) ps3
                 \<lparr>body_acc = [], current_section = None, current_subsection = None,
                  fig_count = 1, figures_acc = [], fx = \<lparr>saved = [], printed = []\<rparr>\<rparr>;
         (tbls, bdy, table_count) = table_loop (doc_tables doc) (flush_section bst)
     in (\<lparr>metadata = \<lparr>title = ttl,
                       authors = map parse_author author_block,
                       abstract = abstract_out ast,
                       keywords = keywords_acc ast,
                       figures = figures_acc bst\<rparr>,
          body = bdy,
          references = extract_references paras,
          tables = tbls\<rparr>,
         fx bst))"

section \<open>extractors.py: extract_pdf\<close>

text \<open>
  The document as the two readers present it, page by page: the text blocks (the seven
  components of a block tuple), the tables found on the page with their bounding box
  \<^verbatim>\<open>(x0, top, x1, bottom)\<close> and what their two extraction calls do (\<open>None\<close>: the call
  raises), and the images of the page with what \<^verbatim>\<open>doc.extract_image\<close> does for them
  (\<open>None\<close>: it raises; otherwise the bytes and the extension). Coordinates are only
  compared, and are rationals here. A table cell is a text or \<^verbatim>\<open>None\<close>.
\<close>

record block =
  bx0 :: rat
  by0 :: rat
  bx1 :: rat
  by1 :: rat
  block_text :: string
  block_no :: nat
  block_type :: nat

record pdf_table =
  bbox :: "rat \<times> rat \<times> rat \<times> rat"
  tbl_extract :: "string option list list option"
  tbl_extract_table :: "string option list list option"

record pdf_image =
  xref :: nat
  extract_image :: "(string \<times> string) option"

record page =
  blocks :: "block list"
  found_tables :: "pdf_table list"
  images :: "pdf_image list"

text \<open>The exceptions that leave \<^verbatim>\<open>extract_pdf\<close>: no handler of the source catches them.\<close>

datatype pdf_error =
    ExtractImageFailed nat
  | ExtractTableFailed
  | WriteFailed string

definition bbox_top :: "rat \<times> rat \<times> rat \<times> rat \<Rightarrow> rat" where
  "bbox_top b = fst (snd b)"

definition bbox_bottom :: "rat \<times> rat \<times> rat \<times> rat \<Rightarrow> rat" where
  "bbox_bottom b = snd (snd (snd b))"

text \<open>
  The items of the merged stream of a page. A table object is identified by its position
  in the result of \<^verbatim>\<open>find_tables()\<close>.
\<close>

datatype pdf_item =
    TableItem nat pdf_table
  | TextItem block

definition combined_items :: "page \<Rightarrow> (rat \<times> pdf_item) list" where
  "combined_items pg =
    sort_key fst
      (map (\<lambda>(k, t). (bbox_top (bbox t), TableItem k t)) (enumerate 0 (found_tables pg))
       @ map (\<lambda>b. (by0 b, TextItem b)) (sort_key by0 (blocks pg)))"

record pdf_state =
  output_lines :: "string list"
  figures_out :: "string option node list"
  tables_out :: "string option table_data list"
  tables_output :: "nat set"
  image_used :: "bool list"
  pdf_fx :: effects

text \<open>\<^verbatim>\<open>with open(path, "wb") as f: f.write(data)\<close>: the file system takes the file or raises.\<close>

definition write_file ::
  "(string \<Rightarrow> bool) \<Rightarrow> string \<Rightarrow> string \<Rightarrow> effects \<Rightarrow> pdf_error + effects" where
  "write_file can_write path data e =
    (if can_write path then Inr (e\<lparr>saved := saved e @ [(path, data)]\<rparr>) else Inl (WriteFailed path))"

definition pdf_fig_re :: regex where
  "pdf_fig_re =
    Seq (lit_i ''fig'') (Seq (Star is_space) (Seq (Star is_digit) (Seq (Star is_space) (lit '':''))))"

definition sanitize_re :: regex where
  "sanitize_re =
    Seq pdf_fig_re (Seq (Star is_space) (Group (Plus (\<lambda>c. c \<noteq> newline))))"

definition sanitize_filename :: "string \<Rightarrow> string" where
  "sanitize_filename text =
    (let caption_text = (case re_match sanitize_re text of
                           Some ([g], _) \<Rightarrow> g
                         | _ \<Rightarrow> text);
         caption_text = strip (lower caption_text);
         caption_text = re_sub (Atom (\<lambda>c. \<not> (is_word c \<or> c \<in> set ''-_. ''))) [] caption_text;
         caption_text = replace (CHR '' '') ''_'' caption_text
     in if caption_text \<noteq> [] then caption_text else ''image'')"

definition table_item :: "nat \<Rightarrow> pdf_table \<Rightarrow> pdf_state \<Rightarrow> pdf_error + pdf_state" where
  "table_item k tbl st =
    (if k \<in> tables_output st then Inr st
     else
       (let st = st\<lparr>tables_output := insert k (tables_output st)\<rparr> in
        case (case tbl_extract tbl of Some d \<Rightarrow> Some d | None \<Rightarrow> tbl_extract_table tbl) of
          None \<Rightarrow> Inl ExtractTableFailed
        | Some [] \<Rightarrow> Inr st
        | Some (header_row # data_rows) \<Rightarrow>
            Inr (st\<lparr>tables_out := tables_out st
                       @ [\<lparr>label = ''Table'' @ str_nat (length (tables_out st) + 1),
                           header = header_row,
                           rows = data_rows\<rparr>]\<rparr>)))"

definition email_line_re :: regex where
  "email_line_re =
    Group (Seq (Plus (\<lambda>c. \<not> is_space c)) (Seq (lit ''@'') (Plus (\<lambda>c. \<not> is_space c))))"

text \<open>
  The substitution of a leading bullet glyph or \<^verbatim>\<open>-\<close> and the blanks after it by \<^verbatim>\<open>- \<close>: the pattern is anchored at the start, so at most
  one replacement is made; of the characters of the class only \<^verbatim>\<open>-\<close> is ASCII.
\<close>

definition normalize_bullet :: "string \<Rightarrow> string" where
  "normalize_bullet text =
    (case re_match (Seq (lit ''-'') (Star is_space)) text of
       Some (g, r) \<Rightarrow> ''- '' @ r
     | None \<Rightarrow> text)"

text \<open>The index of the first image of the page not yet bound to a caption.\<close>

fun first_unused :: "bool list \<Rightarrow> nat \<Rightarrow> nat option" where
  "first_unused [] idx = None"
| "first_unused (used # rest) idx = (if \<not> used then Some idx else first_unused rest (Suc idx))"

definition caption_line ::
  "(string \<Rightarrow> bool) \<Rightarrow> (string \<times> string) list \<Rightarrow> string \<Rightarrow> pdf_state \<Rightarrow> pdf_error + pdf_state" where
  "caption_line can_write images_info text st =
    (case first_unused (image_used st) 0 of
       None \<Rightarrow> Inr (st\<lparr>output_lines := output_lines st @ [text]\<rparr>)
     | Some idx \<Rightarrow>
         (let fname = sanitize_filename text @ ''.'' @ snd (images_info ! idx);
              filepath_img = path_join media_dir fname
          in case write_file can_write filepath_img (fst (images_info ! idx)) (pdf_fx st) of
               Inl err \<Rightarrow> Inl err
             | Inr e \<Rightarrow>
                 Inr (st\<lparr>pdf_fx := e,
                         image_used := (image_used st)[idx := True],
                         figures_out := figures_out st
                           @ [Figure (''Fig'' @ str_nat (length (figures_out st) + 1)) text
                                filepath_img]\<rparr>)))"

definition text_item ::
  "(string \<Rightarrow> bool) \<Rightarrow> pdf_table list \<Rightarrow> (string \<times> string) list \<Rightarrow> block \<Rightarrow> pdf_state \<Rightarrow>
   pdf_error + pdf_state" where
  "text_item can_write tbls images_info b st =
    (if block_type b \<noteq> 0 then Inr st
     else
       (let text = strip (block_text b);
            skip_line = list_ex (\<lambda>t. by0 b \<ge> bbox_top (bbox t) \<and> by1 b \<le> bbox_bottom (bbox t)) tbls
        in if skip_line \<or> text = [] then Inr st
           else
             (case (if prefix ''Email:'' text then None else re_search email_line_re text) of
                Some (before_email, email_text, g, after_email) \<Rightarrow>
                  Inr (st\<lparr>output_lines := output_lines st
                          @ (if strip before_email \<noteq> [] then [strip before_email] else [])
                          @ [email_text]
                          @ (if strip after_email \<noteq> [] then [strip after_email] else [])\<rparr>)
              | None \<Rightarrow>
                  (let text = normalize_bullet text;
                       text = (if re_match pdf_fig_re text \<noteq> None
                               then re_sub (lit_i ''paractice'') ''practice'' text
                               else text)
                   in if re_match pdf_fig_re text \<noteq> None
                      then caption_line can_write images_info text st
                      else Inr (st\<lparr>output_lines := output_lines st @ [text]\<rparr>)))))"

definition item_step ::
  "(string \<Rightarrow> bool) \<Rightarrow> pdf_table list \<Rightarrow> (string \<times> string) list \<Rightarrow> rat \<times> pdf_item \<Rightarrow> pdf_state \<Rightarrow>
   pdf_error + pdf_state" where
  "item_step can_write tbls images_info item st =
    (case snd item of
       TableItem k tbl \<Rightarrow> table_item k tbl st
     | TextItem b \<Rightarrow> text_item can_write tbls images_info b st)"

text \<open>A loop whose body may raise: the first exception ends it.\<close>

fun fold_err :: "('a \<Rightarrow> 's \<Rightarrow> 'e + 's) \<Rightarrow> 'a list \<Rightarrow> 's \<Rightarrow> 'e + 's" where
  "fold_err f [] st = Inr st"
| "fold_err f (x # xs) st = (case f x st of Inl err \<Rightarrow> Inl err | Inr st' \<Rightarrow> fold_err f xs st')"

text \<open>The loop that fills \<^verbatim>\<open>images_info\<close>.\<close>

fun load_images :: "pdf_image list \<Rightarrow> pdf_error + (string \<times> string) list" where
  "load_images [] = Inr []"
| "load_images (img # rest) =
    (case extract_image img of
       None \<Rightarrow> Inl (ExtractImageFailed (xref img))
     | Some info \<Rightarrow> (case load_images rest of Inl err \<Rightarrow> Inl err | Inr infos \<Rightarrow> Inr (info # infos)))"

text \<open>The last loop of a page: every image no caption has taken is written as a figure.\<close>

definition leftover_image ::
  "(string \<Rightarrow> bool) \<Rightarrow> nat \<Rightarrow> (string \<times> string) list \<Rightarrow> nat \<times> bool \<Rightarrow> pdf_state \<Rightarrow>
   pdf_error + pdf_state" where
  "leftover_image can_write page_num images_info iu st =
    (case iu of (idx, used) \<Rightarrow>
       if used then Inr st
       else
         (let fname = ''image_'' @ str_nat page_num @ ''_'' @ str_nat (idx + 1) @ ''.''
                        @ snd (images_info ! idx);
              filepath_img = path_join media_dir fname
          in case write_file can_write filepath_img (fst (images_info ! idx)) (pdf_fx st) of
               Inl err \<Rightarrow> Inl err
             | Inr e \<Rightarrow>
                 Inr (st\<lparr>pdf_fx := e,
                         figures_out := figures_out st
                           @ [Figure (''Fig'' @ str_nat (length (figures_out st) + 1)) fname
                                filepath_img]\<rparr>)))"

definition page_step :: "(string \<Rightarrow> bool) \<Rightarrow> nat \<times> page \<Rightarrow> pdf_state \<Rightarrow> pdf_error + pdf_state" where
  "page_step can_write np st =
    (case np of (page_num, pg) \<Rightarrow>
       (case load_images (images pg) of
          Inl err \<Rightarrow> Inl err
        | Inr images_info \<Rightarrow>
            (let st = st\<lparr>tables_output := {}, image_used := replicate (length images_info) False\<rparr> in
             case fold_err (item_step can_write (found_tables pg) images_info) (combined_items pg) st of
               Inl err \<Rightarrow> Inl err
             | Inr st \<Rightarrow>
                 fold_err (leftover_image can_write page_num images_info)
                   (enumerate 0 (image_used st)) st)))"

text \<open>The pass that collapses runs of blank lines.\<close>

fun clean_output :: "string list \<Rightarrow> bool \<Rightarrow> string list" where
  "clean_output [] prev_empty = []"
| "clean_output (line # rest) prev_empty =
    (if strip line = []
     then (if \<not> prev_empty then [] # clean_output rest True else clean_output rest True)
     else line # clean_output rest False)"

definition extract_pdf ::
  "(string \<Rightarrow> bool) \<Rightarrow> page list \<Rightarrow>
   pdf_error + (string option node, string option) content \<times> effects" where
  "extract_pdf can_write pages =
    (let refs = [] in
     case fold_err (page_step can_write) (enumerate 1 pages)
            \<lparr>output_lines = [], figures_out = [], tables_out = [], tables_output = {},
             image_used = [], pdf_fx = \<lparr>saved = [], printed = []\<rparr>\<rparr> of
       Inl err \<Rightarrow> Inl err
     | Inr st \<Rightarrow>
         (let cleaned_output = clean_output (output_lines st) False in
          Inr (\<lparr>metadata = \<lparr>title = (case cleaned_output of [] \<Rightarrow> [] | l # _ \<Rightarrow> l),
                             authors = [],
                             abstract = [],
                             keywords = [],
                             figures = figures_out st\<rparr>,
                body = map Paragraph (filter (\<lambda>line. line \<noteq> []) (drop 1 cleaned_output)),
                references = refs,
                tables = tables_out st\<rparr>,
               pdf_fx st)))"

section \<open>Notions used in the statements\<close>

subsection \<open>First occurrences of citations\<close>

text \<open>What the loop adds to \<^verbatim>\<open>unique_refs\<close>, given the citations already seen.\<close>

fun firsts :: "string set \<Rightarrow> reference list \<Rightarrow> reference list" where
  "firsts S [] = []"
| "firsts S (r # rs) =
    (if citation r \<in> S then firsts S rs else r # firsts (insert (citation r) S) rs)"

subsection \<open>The outline of a body\<close>

text \<open>
  The headings of a body: for each Section its heading and the headings of the
  Subsections that are its direct content, in order.
\<close>

fun is_section :: "'c node \<Rightarrow> bool" where
  "is_section (Section h c) = True"
| "is_section n = False"

fun sub_headings :: "'c node list \<Rightarrow> string list" where
  "sub_headings [] = []"
| "sub_headings (Subsection h c # ns) = h # sub_headings ns"
| "sub_headings (n # ns) = sub_headings ns"

fun outline :: "'c node \<Rightarrow> string \<times> string list" where
  "outline (Section h c) = (h, sub_headings c)"
| "outline n = ([], [])"

text \<open>
  What the body pass does with a paragraph, read off the tests of the loop: a non-blank
  heading of level 1 or 2 with its cleaned text, a plain text or list paragraph, or a
  paragraph that opens and closes nothing (blank, a heading of another level, a figure
  paragraph).
\<close>

datatype event = Heading1 string | Heading2 string | TextPara | Skipped

definition classify :: "para \<Rightarrow> event" where
  "classify para =
    (let text = clean_text (para_text para) in
     if text = [] then Skipped
     else if is_heading para
       then (if get_heading_level para = 1 then Heading1 text
             else if get_heading_level para = 2 then Heading2 text
             else Skipped)
     else (case re_match fig_re text of
             Some ([fig_num, cap], r) \<Rightarrow> Skipped
           | _ \<Rightarrow> TextPara))"

text \<open>
  The outline the claim describes, from the events and the outline of the Section that is
  open: a level-1 heading closes the open Section and opens one under its text; a level-2
  heading adds a Subsection to the open Section, or to a new \<^verbatim>\<open>Untitled Section\<close>; a text
  paragraph needs an open Section and opens \<^verbatim>\<open>Introduction\<close> when there is none.
\<close>

fun outline_from :: "(string \<times> string list) option \<Rightarrow> event list \<Rightarrow> (string \<times> string list) list" where
  "outline_from cur [] = (case cur of None \<Rightarrow> [] | Some c \<Rightarrow> [c])"
| "outline_from cur (Heading1 t # es) =
    (case cur of None \<Rightarrow> [] | Some c \<Rightarrow> [c]) @ outline_from (Some (t, [])) es"
| "outline_from cur (Heading2 t # es) =
    outline_from (Some (case cur of
                          None \<Rightarrow> (''Untitled Section'', [t])
                        | Some (h, subs) \<Rightarrow> (h, subs @ [t]))) es"
| "outline_from cur (TextPara # es) =
    outline_from (Some (case cur of None \<Rightarrow> (''Introduction'', []) | Some c \<Rightarrow> c)) es"
| "outline_from cur (Skipped # es) = outline_from cur es"

text \<open>
  The heading of the Section synthesized before the first level-1 heading, if any, and
  the texts of the level-1 headings.
\<close>

fun leading_section :: "event list \<Rightarrow> string list" where
  "leading_section [] = []"
| "leading_section (Skipped # es) = leading_section es"
| "leading_section (Heading1 t # es) = []"
| "leading_section (Heading2 t # es) = [''Untitled Section'']"
| "leading_section (TextPara # es) = [''Introduction'']"

fun heading1_texts :: "event list \<Rightarrow> string list" where
  "heading1_texts [] = []"
| "heading1_texts (Heading1 t # es) = t # heading1_texts es"
| "heading1_texts (e # es) = heading1_texts es"

text \<open>
  The invariant of the body pass: the body and the open section hold Section nodes. The
  outline of a state is that of its body followed by the outline the remaining events
  give from the open Section.
\<close>

definition sections_ok :: "('f, 'c) body_state \<Rightarrow> bool" where
  "sections_ok st =
    (list_all is_section (body_acc st)
     \<and> (case current_section st of None \<Rightarrow> True | Some sec \<Rightarrow> is_section sec))"

definition flushed :: "('f, 'c) body_state \<Rightarrow> event list \<Rightarrow> (string \<times> string list) list" where
  "flushed st es =
    map outline (body_acc st) @ outline_from (map_option outline (current_section st)) es"


subsection \<open>The parts of extract_docx\<close>

text \<open>The lines the second loop collects.\<close>

definition author_block :: "para list \<Rightarrow> string list" where
  "author_block paras = fst (author_block_loop (snd (read_title paras)) [])"

text \<open>The paragraphs left for the body pass, and the state in which it starts.\<close>

definition body_start :: "para list \<Rightarrow> para list" where
  "body_start paras =
    snd (abstract_loop (snd (author_block_loop (snd (read_title paras)) []))
           \<lparr>in_abstract = False, in_keywords = False, abstract_lines = [],
            keywords_acc = [], abstract_out = []\<rparr>)"

definition body_init :: "(figure_info, 'c) body_state" where
  "body_init = \<lparr>body_acc = [], current_section = None, current_subsection = None,
                 fig_count = 1, figures_acc = [], fx = \<lparr>saved = [], printed = []\<rparr>\<rparr>"

text \<open>The body when the table pass starts.\<close>

definition body_before_tables :: "imaging \<Rightarrow> document \<Rightarrow> string node list" where
  "body_before_tables pil doc =
    flush_section (body_loop pil (rels doc) (body_start (paragraphs doc)) body_init)"

text \<open>
  The invariant of the table pass: the body holds Section nodes, and every table appended
  so far is in the content of its last Section.
\<close>

definition tables_in_last :: "string table_data list \<times> string node list \<times> nat \<Rightarrow> bool" where
  "tables_in_last st =
    (case st of (tbls, bdy, n) \<Rightarrow>
       list_all is_section bdy
       \<and> list_all (\<lambda>t. bdy \<noteq> [] \<and> (\<exists>h cs. last bdy = Section h cs \<and> Table t \<in> set cs)) tbls)"


subsection \<open>Sample documents\<close>

text \<open>Paragraphs of the styles \<^verbatim>\<open>Normal\<close>, \<^verbatim>\<open>Heading 1\<close> and \<^verbatim>\<open>Heading 2\<close>.\<close>

definition normal :: "string \<Rightarrow> para" where
  "normal t = \<lparr>para_text = t, para_style = ''Normal''\<rparr>"

definition heading1 :: "string \<Rightarrow> para" where
  "heading1 t = \<lparr>para_text = t, para_style = ''Heading 1''\<rparr>"

definition heading2 :: "string \<Rightarrow> para" where
  "heading2 t = \<lparr>para_text = t, para_style = ''Heading 2''\<rparr>"

text \<open>A document whose only heading is of level 2.\<close>

definition untitled_doc :: document where
  "untitled_doc = \<lparr>paragraphs = [normal ''Title'', heading2 ''Background''], doc_tables = [], rels = []\<rparr>"

fun is_paragraph :: "'c node \<Rightarrow> bool" where
  "is_paragraph (Paragraph t) = True"
| "is_paragraph n = False"

text \<open>A styled document and a page with one table each.\<close>

definition table_doc :: document where
  "table_doc = \<lparr>paragraphs = [normal ''Title'', heading1 ''Results'', normal ''See the table.''],
                 doc_tables = [[[''Name'', ''Value''], [''a'', ''1'']]], rels = []\<rparr>"

definition text_block :: "rat \<Rightarrow> rat \<Rightarrow> string \<Rightarrow> block" where
  "text_block y0 y1 t =
    \<lparr>bx0 = 0, by0 = y0, bx1 = 100, by1 = y1, block_text = t, block_no = 0, block_type = 0\<rparr>"

definition table_page :: page where
  "table_page =
    \<lparr>blocks = [text_block 10 20 ''Title'', text_block 20 30 ''Body text'', text_block 55 60 ''a''],
     found_tables = [\<lparr>bbox = (0, 50, 100, 80),
                      tbl_extract = Some [[Some ''Name''], [Some ''a'']],
                      tbl_extract_table = None\<rparr>],
     images = []\<rparr>"

text \<open>An imaging library that opens no image, and one that reads and saves every PNG.\<close>

definition no_imaging :: imaging where
  "no_imaging = \<lparr>image_open = (\<lambda>data. None), image_save = (\<lambda>data path. False)\<rparr>"

definition png_imaging :: imaging where
  "png_imaging = \<lparr>image_open = (\<lambda>data. Some (Some ''PNG'')), image_save = (\<lambda>data path. True)\<rparr>"

text \<open>A page with a references section.\<close>

definition refs_page :: page where
  "refs_page =
    \<lparr>blocks = [text_block 10 20 ''Title'', text_block 20 30 ''Body text'',
               text_block 30 40 ''References'', text_block 40 50 ''[1] Foo, 2020''],
     found_tables = [], images = []\<rparr>"

text \<open>A page with one embedded image and no caption line.\<close>

definition image_page :: page where
  "image_page =
    \<lparr>blocks = [text_block 10 20 ''Title'', text_block 20 30 ''Body text''],
     found_tables = [],
     images = [\<lparr>xref = 7, extract_image = Some (''IMAGE-BYTES'', ''png'')\<rparr>]\<rparr>"

text \<open>A styled document with two figure paragraphs and two image relationships.\<close>

definition two_figures_doc :: document where
  "two_figures_doc =
    \<lparr>paragraphs = [normal ''Title'', heading1 ''Results'',
                   normal ''Figure 1: first caption'', normal ''Figure 2: second caption''],
     doc_tables = [],
     rels = [\<lparr>reltype = RT_IMAGE, target_part = ''FIRST-IMAGE''\<rparr>,
             \<lparr>reltype = RT_IMAGE, target_part = ''SECOND-IMAGE''\<rparr>]\<rparr>"

text \<open>The styled scenario.\<close>

definition scenario_doc :: document where
  "scenario_doc =
    \<lparr>paragraphs = [normal ''Title'', normal ''Jane Doe, PI, MIT'', normal ''Abstract'',
                   normal ''This is the abstract.'', normal ''Keywords'', normal ''alpha, beta'',
                   heading1 ''Intro'', normal ''Hello world.''],
     doc_tables = [], rels = []\<rparr>"

text \<open>The test of the reference pass on one paragraph.\<close>

definition is_ref_heading :: "para \<Rightarrow> bool" where
  "is_ref_heading para = (re_match references_re (clean_text (para_text para)) \<noteq> None)"

text \<open>A document that starts with its references heading, and one that does not.\<close>

definition refs_first_doc :: document where
  "refs_first_doc =
    \<lparr>paragraphs = [normal ''References'', normal ''Foo, 2020'', normal ''Bar, 2021''],
     doc_tables = [], rels = []\<rparr>"

definition refs_last_doc :: document where
  "refs_last_doc =
    \<lparr>paragraphs = [normal ''Title'', normal ''References'', normal ''Foo, 2020'', normal ''Bar, 2021''],
     doc_tables = [], rels = []\<rparr>"

section \<open>The body pass of extract_docx\<close>

lemma is_section_on_content [simp]: "is_section (on_content f n) = is_section n"
  by (cases n) auto

lemma is_section_on_container [simp]: "is_section (on_container f n k) = is_section n"
  by (cases k) auto

lemma sub_headings_append [simp]: "sub_headings (a @ b) = sub_headings a @ sub_headings b"
  by (induction a rule: sub_headings.induct) auto

lemma sub_headings_update:
  "j < length c \<Longrightarrow> sub_headings (c[j := on_content f (c ! j)]) = sub_headings c"
proof (induction c arbitrary: j)
  case Nil
  then show ?case by simp
next
  case (Cons n ns)
  show ?case
  proof (cases j)
    case 0
    then show ?thesis by (cases n) auto
  next
    case (Suc i)
    with Cons show ?thesis by (cases n) auto
  qed
qed

lemma sub_headings_append_list_item [simp]:
  "sub_headings (append_list_item item c) = sub_headings c"
proof (cases "c = []")
  case True
  then show ?thesis by (simp add: append_list_item_def)
next
  case False
  then have c: "c = butlast c @ [last c]" by simp
  have "sub_headings c = sub_headings (butlast c) @ sub_headings [last c]"
    using sub_headings_append [of "butlast c" "[last c]"] c by simp
  then show ?thesis using False
    by (cases "last c") (auto simp: append_list_item_def)
qed

lemma outline_on_container:
  assumes "\<And>c. sub_headings (f c) = sub_headings c"
  shows "outline (on_container f sec k) = outline sec"
proof (cases sec)
  case (Section h c)
  show ?thesis
  proof (cases k)
    case None
    with Section assms show ?thesis by simp
  next
    case (Some j)
    with Section show ?thesis by (simp add: sub_headings_update)
  qed
qed (cases k; simp)+


lemma heading_step_ok:
  "sections_ok st \<Longrightarrow> sections_ok (heading_step text level st)"
  by (auto simp: sections_ok_def heading_step_def split: option.splits)

lemma figure_step_ok:
  "sections_ok st \<Longrightarrow> sections_ok (figure_step pil rs fig_num caption st)"
  by (auto simp: sections_ok_def figure_step_def Let_def split: option.splits prod.splits)

lemma text_step_ok:
  "sections_ok st \<Longrightarrow> sections_ok (text_step para text st)"
  by (auto simp: sections_ok_def text_step_def Let_def split: option.splits)

lemma body_step_ok:
  "sections_ok st \<Longrightarrow> sections_ok (body_step pil rs st para)"
  by (auto simp: body_step_def Let_def heading_step_ok figure_step_ok text_step_ok
           split: option.splits list.splits prod.splits)

lemma body_loop_ok:
  "sections_ok st \<Longrightarrow> sections_ok (body_loop pil rs ps st)"
  unfolding body_loop_def
  by (induction ps arbitrary: st) (auto simp: body_step_ok)

lemma heading1_step_flushed:
  "level = 1 \<Longrightarrow> flushed (heading_step text level st) es = flushed st (Heading1 text # es)"
  by (auto simp: flushed_def heading_step_def split: option.splits)

lemma heading2_step_flushed:
  assumes "level = 2" and "sections_ok st"
  shows "flushed (heading_step text level st) es = flushed st (Heading2 text # es)"
proof (cases "current_section st")
  case None
  with assms show ?thesis by (simp add: flushed_def heading_step_def)
next
  case (Some sec)
  with assms obtain h c where sec: "sec = Section h c"
    by (cases sec) (auto simp: sections_ok_def)
  with Some assms show ?thesis
    by (simp add: flushed_def heading_step_def append_item_def)
qed

lemma heading_other_step:
  "level \<noteq> 1 \<Longrightarrow> level \<noteq> 2 \<Longrightarrow> heading_step text level st = st"
  by (simp add: heading_step_def)

lemma sub_headings_append_figure [simp]:
  "sub_headings (append_item (Figure l c p) cs) = sub_headings cs"
  by (simp add: append_item_def)

lemma sub_headings_append_paragraph [simp]:
  "sub_headings (append_item (Paragraph t) cs) = sub_headings cs"
  by (simp add: append_item_def)

lemma figure_step_flushed:
  "flushed (figure_step pil rs fig_num caption st) es = flushed st es"
proof -
  have "map_option outline (current_section (figure_step pil rs fig_num caption st))
        = map_option outline (current_section st)"
    by (cases "current_section st")
       (auto simp: figure_step_def Let_def outline_on_container split: option.splits prod.splits)
  moreover have "body_acc (figure_step pil rs fig_num caption st) = body_acc st"
    by (auto simp: figure_step_def Let_def split: option.splits prod.splits)
  ultimately show ?thesis by (simp add: flushed_def)
qed

lemma text_step_flushed:
  "flushed (text_step para text st) es = flushed st (TextPara # es)"
proof -
  have b: "body_acc (text_step para text st) = body_acc st"
    by (simp add: text_step_def Let_def)
  have c: "map_option outline (current_section (text_step para text st))
        = Some (case map_option outline (current_section st) of
                  None \<Rightarrow> (''Introduction'', [])
                | Some c \<Rightarrow> c)"
    by (cases "current_section st")
       (auto simp: text_step_def Let_def outline_on_container)
  show ?thesis by (simp add: flushed_def b c)
qed

lemma body_step_flushed:
  "sections_ok st \<Longrightarrow> flushed (body_step pil rs st para) es = flushed st (classify para # es)"
proof -
  assume ok: "sections_ok st"
  let ?text = "clean_text (para_text para)"
  show ?thesis
  proof (cases "?text = []")
    case True
    then show ?thesis by (simp add: body_step_def classify_def flushed_def)
  next
    case blank: False
    show ?thesis
    proof (cases "is_heading para")
      case True
      with blank have step: "body_step pil rs st para
          = heading_step ?text (get_heading_level para) st"
        by (simp add: body_step_def)
      consider "get_heading_level para = 1" | "get_heading_level para = 2"
        | "get_heading_level para \<noteq> 1" "get_heading_level para \<noteq> 2" by blast
      then show ?thesis
      proof cases
        case 1
        with blank True have "classify para = Heading1 ?text"
          by (simp add: classify_def)
        with step heading1_step_flushed [OF 1] show ?thesis by simp
      next
        case 2
        with blank True have "classify para = Heading2 ?text"
          by (simp add: classify_def)
        with step heading2_step_flushed [OF 2 ok] show ?thesis by simp
      next
        case 3
        with blank True have "classify para = Skipped"
          by (simp add: classify_def)
        with step heading_other_step [OF 3, of ?text st] show ?thesis by (simp add: flushed_def)
      qed
    next
      case False
      with blank show ?thesis
        by (auto simp: body_step_def classify_def figure_step_flushed text_step_flushed
                 split: option.splits list.splits prod.splits)
           (simp_all add: flushed_def)
    qed
  qed
qed

lemma body_loop_flushed:
  "sections_ok st \<Longrightarrow>
   flushed (body_loop pil rs ps st) es = flushed st (map classify ps @ es)"
  unfolding body_loop_def
proof (induction ps arbitrary: st)
  case Nil
  show ?case by simp
next
  case (Cons p ps)
  have "flushed (foldl (body_step pil rs) (body_step pil rs st p) ps) es
        = flushed (body_step pil rs st p) (map classify ps @ es)"
    using Cons.IH [OF body_step_ok [OF Cons.prems]] .
  also have "\<dots> = flushed st (classify p # map classify ps @ es)"
    using body_step_flushed [OF Cons.prems] .
  finally show ?case by simp
qed

lemma flush_section_outline:
  "map outline (flush_section st) = flushed st []"
  by (auto simp: flush_section_def flushed_def split: option.splits)

lemma flush_section_sections:
  "sections_ok st \<Longrightarrow> list_all is_section (flush_section st)"
  by (auto simp: flush_section_def sections_ok_def split: option.splits)

lemma outline_from_headings:
  "map fst (outline_from cur es)
   = (case cur of None \<Rightarrow> leading_section es | Some c \<Rightarrow> [fst c]) @ heading1_texts es"
  by (induction cur es rule: outline_from.induct) (auto split: option.splits)

lemma leading_section_length:
  "length (leading_section es) \<le> 1"
  by (induction es rule: leading_section.induct) auto

lemma heading1_texts_classify:
  "heading1_texts (map classify ps)
   = map (\<lambda>p. clean_text (para_text p))
       (filter (\<lambda>p. clean_text (para_text p) \<noteq> [] \<and> is_heading p \<and> get_heading_level p = 1) ps)"
  by (induction ps) (auto simp: classify_def Let_def split: option.splits list.splits prod.splits)

section \<open>The table pass of extract_docx\<close>

lemma extract_docx_body:
  "body (fst (extract_docx pil doc))
   = fst (snd (table_loop (doc_tables doc) (body_before_tables pil doc)))"
  by (simp add: extract_docx_def body_before_tables_def body_start_def body_init_def Let_def
           split: prod.splits)

lemma extract_docx_tables:
  "tables (fst (extract_docx pil doc))
   = fst (table_loop (doc_tables doc) (body_before_tables pil doc))"
  by (simp add: extract_docx_def body_before_tables_def body_start_def body_init_def Let_def
           split: prod.splits)

lemma body_init_ok: "sections_ok body_init"
  by (simp add: sections_ok_def body_init_def)

lemma body_before_tables_sections:
  "list_all is_section (body_before_tables pil doc)"
  unfolding body_before_tables_def
  by (rule flush_section_sections [OF body_loop_ok [OF body_init_ok]])

lemma body_before_tables_outline:
  "map outline (body_before_tables pil doc)
   = outline_from None (map classify (body_start (paragraphs doc)))"
proof -
  have "map outline (body_before_tables pil doc)
        = flushed (body_init :: (figure_info, string) body_state)
            (map classify (body_start (paragraphs doc)) @ [])"
    unfolding body_before_tables_def flush_section_outline
    by (rule body_loop_flushed [OF body_init_ok])
  then show ?thesis by (simp add: flushed_def body_init_def)
qed

lemma table_step_in_last:
  assumes "tables_in_last st"
  shows "tables_in_last (table_step st table)"
proof -
  obtain tbls bdy n where st: "st = (tbls, bdy, n)" by (cases st) auto
  show ?thesis
  proof (cases table)
    case Nil
    with st assms show ?thesis by (simp add: table_step_def)
  next
    case (Cons header_row data_rows)
    show ?thesis
    proof (cases "bdy = []")
      case True
      with st assms have "tbls = []"
        by (cases tbls) (auto simp: tables_in_last_def)
      with st True Cons show ?thesis
        by (simp add: table_step_def tables_in_last_def Let_def)
    next
      case False
      from st assms have secs: "list_all is_section bdy"
        by (simp add: tables_in_last_def)
      with False have "is_section (last bdy)"
        by (simp add: list_all_iff)
      then obtain h cs where l: "last bdy = Section h cs"
        by (cases "last bdy") auto
      from secs have bl: "list_all is_section (butlast bdy)"
        by (auto simp: list_all_iff dest: in_set_butlastD)
      from st assms l have old: "list_all (\<lambda>t. Table t \<in> set cs) tbls"
        by (auto simp: tables_in_last_def list_all_iff)
      from st Cons False l bl old show ?thesis
        by (auto simp: table_step_def tables_in_last_def Let_def append_item_def list_all_iff)
    qed
  qed
qed

lemma foldl_table_step_in_last:
  "tables_in_last st \<Longrightarrow> tables_in_last (foldl table_step st ts)"
  by (induction ts arbitrary: st) (auto simp: table_step_in_last)

lemma table_loop_in_last:
  "list_all is_section bdy \<Longrightarrow> tables_in_last (table_loop ts bdy)"
  unfolding table_loop_def
  by (rule foldl_table_step_in_last) (simp add: tables_in_last_def)

lemma outline_append_table [simp]:
  "outline (on_content (append_item (Table td)) n) = outline n"
  by (cases n) (auto simp: append_item_def)

lemma table_step_outline:
  "map outline (fst (snd (table_step (tbls, bdy, n) table)))
   = (if bdy = [] then (if table \<noteq> [] then [(''Tables'', [])] else []) else map outline bdy)"
proof (cases table)
  case Nil
  then show ?thesis by (simp add: table_step_def)
next
  case (Cons header_row data_rows)
  show ?thesis
  proof (cases "bdy = []")
    case True
    with Cons show ?thesis by (simp add: table_step_def Let_def)
  next
    case False
    then have "map outline bdy = map outline (butlast bdy) @ [outline (last bdy)]"
      by (metis append_butlast_last_id list.simps(8,9) map_append)
    with Cons False show ?thesis by (simp add: table_step_def Let_def)
  qed
qed

lemma foldl_table_step_outline:
  "map outline (fst (snd (foldl table_step (tbls, bdy, n) ts)))
   = (if bdy = [] then (if list_ex (\<lambda>t. t \<noteq> []) ts then [(''Tables'', [])] else [])
      else map outline bdy)"
proof (induction ts arbitrary: tbls bdy n)
  case Nil
  show ?case by simp
next
  case (Cons t ts)
  obtain tbls' bdy' n' where s: "table_step (tbls, bdy, n) t = (tbls', bdy', n')"
    by (cases "table_step (tbls, bdy, n) t") auto
  have o: "map outline bdy'
        = (if bdy = [] then (if t \<noteq> [] then [(''Tables'', [])] else []) else map outline bdy)"
    using table_step_outline [of tbls bdy n t] s by simp
  have e: "bdy' = [] \<longleftrightarrow> bdy = [] \<and> t = []"
    using o by (metis list.simps(8) map_is_Nil_conv not_Cons_self2)
  show ?case
    using Cons.IH [of tbls' bdy' n'] s o e by auto
qed

lemma table_loop_outline:
  "map outline (fst (snd (table_loop ts bdy)))
   = (if bdy = [] then (if list_ex (\<lambda>t. t \<noteq> []) ts then [(''Tables'', [])] else [])
      else map outline bdy)"
  unfolding table_loop_def by (rule foldl_table_step_outline)
section \<open>Figures and image relationships (C2)\<close>

text \<open>
  C2. The loop over the relationships stops at the first relationship of type image and
  keeps no record of it. For a document with two image relationships and two figure
  paragraphs, both figures are bound to the first image: its bytes are written to
  \<^verbatim>\<open>figure_1.png\<close> and to \<^verbatim>\<open>figure_2.png\<close>, and the second image is never used.
\<close>

theorem extract_docx_figures_same_image:
  "extract_docx png_imaging two_figures_doc
   = (\<lparr>metadata =
         \<lparr>title = ''Title'', authors = [], abstract = [], keywords = [],
          figures =
            [\<lparr>fig_id = ''fig_1'', filename = ''figure_1.png'',
              fig_caption = ''Figure 1: first caption'',
              fig_path = ''extracted_images/figure_1.png''\<rparr>,
             \<lparr>fig_id = ''fig_2'', filename = ''figure_2.png'',
              fig_caption = ''Figure 2: second caption'',
              fig_path = ''extracted_images/figure_2.png''\<rparr>]\<rparr>,
       body =
         [Section ''Results''
           [Figure ''Fig1'' ''first caption'' ''extracted_images/figure_1.png'',
            Figure ''Fig2'' ''second caption'' ''extracted_images/figure_2.png'']],
       references = [],
       tables = []\<rparr>,
      \<lparr>saved = [(''extracted_images/figure_1.png'', ''FIRST-IMAGE''),
                (''extracted_images/figure_2.png'', ''FIRST-IMAGE'')],
       printed = []\<rparr>)"
  by code_simp

section \<open>Sections and headings (C3)\<close>

lemma untitled_doc_body:
  "body (fst (extract_docx pil untitled_doc)) = [Section ''Untitled Section'' [Subsection ''Background'' []]]"
  by code_simp

lemma untitled_doc_headings:
  "filter (\<lambda>p. is_heading p \<and> get_heading_level p = 1) (paragraphs untitled_doc) = []"
  by code_simp

text \<open>
  C3, as stated, fails: the document with the paragraphs \<^verbatim>\<open>Title\<close> and a level-2 heading
  \<^verbatim>\<open>Background\<close> has no level-1 heading, and its body has one Section, the synthesized
  \<^verbatim>\<open>Untitled Section\<close>.
\<close>

theorem sections_per_heading1_counterexample:
  "length (filter is_section (body (fst (extract_docx no_imaging untitled_doc)))) = 1
   \<and> length (filter (\<lambda>p. is_heading p \<and> get_heading_level p = 1) (paragraphs untitled_doc)) = 0"
  unfolding untitled_doc_body untitled_doc_headings by simp

text \<open>
  C3, amended. The body of the styled-document extractor holds Section nodes only. Read
  from the paragraph at which the body pass starts, its Sections are, in order: one
  synthesized Section (\<^verbatim>\<open>Untitled Section\<close> or \<^verbatim>\<open>Introduction\<close>) when a level-2 heading or a
  plain text paragraph comes before the first level-1 heading, then one Section for each
  non-blank level-1 heading paragraph, in heading order and under the heading's text. So
  their number is the number of those headings, plus one when the synthesized Section is
  there. When this gives no Section at all and some table has a row, the body is the one
  synthesized \<^verbatim>\<open>Tables\<close> Section. The Subsections of each Section are those whose level-2
  heading was read while that Section was open (\<^verbatim>\<open>outline_from\<close>), in order.
\<close>

theorem extract_docx_sections:
  "list_all is_section (body (fst (extract_docx pil doc)))
   \<and> map outline (body (fst (extract_docx pil doc)))
       = (if outline_from None (map classify (body_start (paragraphs doc))) = []
          then (if list_ex (\<lambda>t. t \<noteq> []) (doc_tables doc) then [(''Tables'', [])] else [])
          else outline_from None (map classify (body_start (paragraphs doc))))
   \<and> map fst (outline_from None (map classify (body_start (paragraphs doc))))
       = leading_section (map classify (body_start (paragraphs doc)))
         @ map (\<lambda>p. clean_text (para_text p))
             (filter (\<lambda>p. clean_text (para_text p) \<noteq> [] \<and> is_heading p \<and> get_heading_level p = 1)
                (body_start (paragraphs doc)))
   \<and> length (leading_section (map classify (body_start (paragraphs doc)))) \<le> 1"
proof -
  let ?es = "map classify (body_start (paragraphs doc))"
  have secs: "list_all is_section (body (fst (extract_docx pil doc)))"
    using table_loop_in_last [OF body_before_tables_sections, of "doc_tables doc" pil doc]
    by (simp add: extract_docx_body tables_in_last_def split: prod.splits)
  have "map outline (body_before_tables pil doc) = [] \<longleftrightarrow> body_before_tables pil doc = []"
    by simp
  then have out: "map outline (body (fst (extract_docx pil doc)))
       = (if outline_from None ?es = []
          then (if list_ex (\<lambda>t. t \<noteq> []) (doc_tables doc) then [(''Tables'', [])] else [])
          else outline_from None ?es)"
    unfolding extract_docx_body table_loop_outline body_before_tables_outline by simp
  have heads: "map fst (outline_from None ?es)
       = leading_section ?es
         @ map (\<lambda>p. clean_text (para_text p))
             (filter (\<lambda>p. clean_text (para_text p) \<noteq> [] \<and> is_heading p \<and> get_heading_level p = 1)
                (body_start (paragraphs doc)))"
    by (simp add: outline_from_headings heading1_texts_classify)
  from secs out heads leading_section_length [of ?es] show ?thesis by blast
qed
section \<open>Author lines (C4)\<close>

lemma sub_go_no_match:
  "re_search p s = None \<Longrightarrow> sub_go p repl 0 s = s"
proof (induction s)
  case Nil
  show ?case by simp
next
  case (Cons x xs)
  from Cons.prems have m: "re_match p (x # xs) = None" and r: "re_search p xs = None"
    by (auto split: option.splits prod.splits)
  from Cons.IH [OF r] m show ?case by simp
qed

lemma re_sub_no_match:
  "re_search p s = None \<Longrightarrow> re_sub p repl s = s"
  by (simp add: re_sub_def sub_go_no_match)

lemma dropWhile_last:
  "dropWhile P xs \<noteq> [] \<Longrightarrow> last (dropWhile P xs) = last xs"
  by (induction xs) (auto split: if_splits)

lemma dropWhile_hd:
  "dropWhile P xs \<noteq> [] \<Longrightarrow> \<not> P (hd (dropWhile P xs))"
  using hd_dropWhile by blast

lemma dropWhile_id:
  "xs = [] \<or> \<not> P (hd xs) \<Longrightarrow> dropWhile P xs = xs"
  by (cases xs) auto

lemma strip_idem: "strip (strip s) = strip s"
proof -
  let ?u = "dropWhile is_space s"
  let ?v = "dropWhile is_space (rev ?u)"
  have t: "strip s = rev ?v" by (simp add: strip_def)
  have v: "?v = [] \<or> \<not> is_space (hd ?v)"
    using dropWhile_hd [of is_space "rev ?u"] by blast
  have front: "rev ?v = [] \<or> \<not> is_space (hd (rev ?v))"
  proof (cases "?v = []")
    case True
    then show ?thesis by simp
  next
    case False
    then have ne: "rev ?u \<noteq> []" by (cases "rev ?u") auto
    from False have "last ?v = last (rev ?u)" by (rule dropWhile_last)
    also have "\<dots> = hd ?u" using ne by (simp add: last_rev)
    finally have "hd (rev ?v) = hd ?u" using False by (simp add: hd_rev)
    moreover have "\<not> is_space (hd ?u)"
      using ne dropWhile_hd [of is_space s] by simp
    ultimately show ?thesis by simp
  qed
  have a: "dropWhile is_space (rev ?v) = rev ?v"
    using front by (rule dropWhile_id)
  have b: "dropWhile is_space ?v = ?v"
    using v by (rule dropWhile_id)
  show ?thesis
    unfolding t unfolding strip_def a by (simp add: b)
qed

lemma strip_clean_text: "strip (clean_text t) = clean_text t"
  by (simp add: clean_text_def strip_idem)

lemma extract_docx_authors:
  "authors (metadata (fst (extract_docx pil doc))) = map parse_author (author_block (paragraphs doc))"
  by (simp add: extract_docx_def author_block_def Let_def split: prod.splits)

lemma author_block_loop_clean:
  "list_all (\<lambda>l. l \<noteq> [] \<and> strip l = l) acc \<Longrightarrow>
   list_all (\<lambda>l. l \<noteq> [] \<and> strip l = l) (fst (author_block_loop ps acc))"
  by (induction ps acc rule: author_block_loop.induct)
     (auto simp: Let_def strip_clean_text)

lemma author_block_clean:
  "list_all (\<lambda>l. l \<noteq> [] \<and> strip l = l) (author_block paras)"
  unfolding author_block_def by (rule author_block_loop_clean) simp

lemma comma_semicolon_match:
  "re_match comma_semicolon_re (x # xs)
   = (if x = CHR '','' \<or> x = CHR '';'' then Some ([], xs) else None)"
  by (simp add: re_match_def comma_semicolon_re_def)

lemma split_go_count:
  "length (split_go comma_semicolon_re 0 cur s)
   = 1 + length (filter (\<lambda>c. c = CHR '','' \<or> c = CHR '';'') s)"
  by (induction s arbitrary: cur) (auto simp: comma_semicolon_match)

lemma author_parts_count:
  "length (author_parts l)
   = 1 + length (filter (\<lambda>c. c = CHR '','' \<or> c = CHR '';'') (author_clean l))"
  by (simp add: author_parts_def re_split_def split_go_count)

lemma split_go_no_sep:
  "\<forall>c \<in> set cur. c \<noteq> CHR '','' \<and> c \<noteq> CHR '';'' \<Longrightarrow>
   \<forall>part \<in> set (split_go comma_semicolon_re 0 cur s). CHR '','' \<notin> set part \<and> CHR '';'' \<notin> set part"
proof (induction s arbitrary: cur)
  case Nil
  then show ?case by auto
next
  case (Cons x xs)
  show ?case
  proof (cases "x = CHR '','' \<or> x = CHR '';''")
    case True
    have "\<forall>part \<in> set (split_go comma_semicolon_re 0 [] xs). CHR '','' \<notin> set part \<and> CHR '';'' \<notin> set part"
      by (rule Cons.IH) simp
    with True Cons.prems show ?thesis
      by (auto simp: comma_semicolon_match)
  next
    case False
    have "\<forall>part \<in> set (split_go comma_semicolon_re 0 (cur @ [x]) xs). CHR '','' \<notin> set part \<and> CHR '';'' \<notin> set part"
      by (rule Cons.IH) (use False Cons.prems in auto)
    with False show ?thesis
      by (simp add: comma_semicolon_match)
  qed
qed

lemma set_strip: "set (strip s) \<subseteq> set s"
proof -
  have "set (strip s) = set (dropWhile is_space (rev (dropWhile is_space s)))"
    by (simp add: strip_def)
  also have "\<dots> \<subseteq> set (rev (dropWhile is_space s))" by (rule set_dropWhileD [THEN subsetI])
  also have "\<dots> \<subseteq> set s" by (auto dest: set_dropWhileD)
  finally show ?thesis .
qed

lemma author_parts_no_sep:
  "list_all (\<lambda>part. CHR '','' \<notin> set part \<and> CHR '';'' \<notin> set part) (author_parts l)"
  using split_go_no_sep [of "[]" "author_clean l"] set_strip
  by (auto simp: author_parts_def re_split_def list_all_iff)

lemma runs_suffix: "r \<in> set (runs c s) \<Longrightarrow> suffix r s"
  by (induction s) (auto simp: suffix_Cons split: if_splits)

lemma ms_suffix: "(g, r) \<in> set (ms p s) \<Longrightarrow> suffix r s"
proof (induction p arbitrary: g r s)
  case Eps
  then show ?case by simp
next
  case (Atom c)
  then show ?case by (auto simp: suffix_Cons split: list.splits if_splits)
next
  case (Seq a b)
  from Seq.prems obtain g1 r1 g2 where a: "(g1, r1) \<in> set (ms a s)" and b: "(g2, r) \<in> set (ms b r1)"
    by auto
  from Seq.IH(1) [OF a] Seq.IH(2) [OF b] show ?case
    by (rule suffix_order.trans [rotated])
next
  case (Alt a b)
  then show ?case by auto
next
  case (Star c)
  then show ?case by (auto dest: runs_suffix)
next
  case (Plus c)
  then show ?case by (auto dest: in_set_butlastD runs_suffix)
next
  case (Opt a)
  then show ?case by auto
next
  case (Group a)
  then show ?case by auto
qed

lemma re_match_suffix: "re_match p s = Some (g, r) \<Longrightarrow> suffix r s"
  using ms_suffix [of g r p s] by (auto simp: re_match_def split: list.splits)

lemma re_search_decompose:
  "re_search p s = Some (b, m, g, a) \<Longrightarrow> s = b @ m @ a"
proof (induction s arbitrary: b)
  case Nil
  then show ?case by (auto split: option.splits)
next
  case (Cons x xs)
  show ?case
  proof (cases "re_match p (x # xs)")
    case None
    with Cons.prems obtain b' where s: "re_search p xs = Some (b', m, g, a)" and b: "b = x # b'"
      by auto
    from Cons.IH [OF s] b show ?thesis by simp
  next
    case (Some gr)
    obtain g' r where gr: "gr = (g', r)" by (cases gr) auto
    from Some gr have "suffix r (x # xs)" by (simp add: re_match_suffix)
    then obtain u where u: "x # xs = u @ r" by (auto simp: suffix_def)
    then have t: "take (length (x # xs) - length r) (x # xs) = u" by simp
    from Some gr Cons.prems
    have "b = [] \<and> m = take (length (x # xs) - length r) (x # xs) \<and> a = r"
      by auto
    with t u show ?thesis by simp
  qed
qed

lemma roe_author:
  "parse_author ''J. Roe; j-r.x@a-b.c.org; Lab''
   = \<lparr>name = ''J. Roe'', role = [], affiliation = ''Lab'', email = ''j-r.x@a-b.c.org''\<rparr>"
  by code_simp

lemma roe_parts: "author_parts ''J. Roe; j-r.x@a-b.c.org; Lab'' = [''J. Roe'', [], ''Lab'']"
  by code_simp

lemma roe_search:
  "re_search email_re ''J. Roe; j-r.x@a-b.c.org; Lab''
   = Some (''J. Roe; '', ''j-r.x@a-b.c.org'', [], ''; Lab'')"
  by code_simp

lemma lee_author:
  "parse_author ''Ann Lee; Univ Z''
   = \<lparr>name = ''Ann Lee'', role = [], affiliation = ''Univ Z'', email = []\<rparr>"
  by code_simp

lemma lee_parts: "author_parts ''Ann Lee; Univ Z'' = [''Ann Lee'', ''Univ Z'']"
  by code_simp

lemma ray_author:
  "parse_author ''Bob Ray bob@x.org''
   = \<lparr>name = ''Bob Ray'', role = [], affiliation = [], email = ''bob@x.org''\<rparr>"
  by code_simp

lemma ray_parts: "author_parts ''Bob Ray bob@x.org'' = [''Bob Ray'']"
  by code_simp

lemma ray_clean: "author_clean ''Bob Ray bob@x.org'' = ''Bob Ray''"
  by code_simp

lemma kim_author:
  "parse_author ''Kim, Dept A; Univ B, k.im@u-b.edu''
   = \<lparr>name = ''Kim'', role = ''Dept A'', affiliation = ''Univ B, '', email = ''k.im@u-b.edu''\<rparr>"
  by code_simp

lemma two_emails_author:
  "parse_author ''a@b.cd x_y@z.org Ann''
   = \<lparr>name = ''Ann'', role = [], affiliation = [], email = ''a@b.cd''\<rparr>"
  by code_simp

lemma smith_parts:
  "author_parts ''A. Smith, Editor, Dept X, Univ Y'' = [''A. Smith'', ''Editor'', ''Dept X'', ''Univ Y'']"
  by code_simp

lemma smith_author:
  "parse_author ''A. Smith, Editor, Dept X, Univ Y''
   = \<lparr>name = ''A. Smith'', role = ''Editor'', affiliation = ''Dept X, Univ Y'', email = []\<rparr>"
  by code_simp

lemma two_parts: "author_parts ''Jane Doe, MIT'' = [''Jane Doe'', ''MIT'']"
  by code_simp

lemma one_part: "author_parts ''Jane Doe'' = [''Jane Doe'']"
  by code_simp

lemma one_part_no_email: "re_search email_re ''Jane Doe'' = None"
  by code_simp

lemma one_part_strip: "strip ''Jane Doe'' = ''Jane Doe''"
  by code_simp

text \<open>
  C4. The authors of the result are the author-block lines, each parsed on its own. For a
  line: the email is the first match of the email pattern (empty without a match); the
  emails are removed and the rest is trimmed, split at commas and semicolons, and the parts
  are trimmed. With at least three parts, part 0 is the name, part 1 the role and the parts
  from 2 on, joined with a comma and a space, the affiliation. With exactly two parts,
  part 0 is the name, part 1 the affiliation and the role is empty. With fewer than two
  parts the whole of that rest is the name and role and affiliation are empty; every
  author-block line is trimmed already, so without an email that rest is the line itself.
  The line \<^verbatim>\<open>A. Smith, Editor, Dept X, Univ Y\<close> gives name \<^verbatim>\<open>A. Smith\<close>, role \<^verbatim>\<open>Editor\<close> and
  affiliation \<^verbatim>\<open>Dept X, Univ Y\<close>.

  For every line: no part holds a comma or a semicolon, and there is one part more than
  there are commas and semicolons in the line without its emails; a match of the email
  pattern cuts the line into the text before it, the email and the text after it. Lines
  with an email, with semicolons, with both kinds of separator and with two emails are
  parsed as the source parses them: in \<^verbatim>\<open>J. Roe; j-r.x@a-b.c.org; Lab\<close> the email leaves an
  empty second part, which is the role; in \<^verbatim>\<open>Bob Ray bob@x.org\<close> the name is the line
  without the email.
\<close>

theorem parse_author_rule:
  "authors (metadata (fst (extract_docx pil doc))) = map parse_author (author_block (paragraphs doc))
   \<and> email (parse_author l) = (case re_search email_re l of Some (b, m, g, a) \<Rightarrow> m | None \<Rightarrow> [])
   \<and> author_clean l = strip (re_sub email_re [] l)
   \<and> author_parts l = map strip (re_split comma_semicolon_re (author_clean l))
   \<and> (3 \<le> length (author_parts l) \<longrightarrow>
        name (parse_author l) = author_parts l ! 0
        \<and> role (parse_author l) = author_parts l ! 1
        \<and> affiliation (parse_author l) = join '', '' (drop 2 (author_parts l)))
   \<and> (length (author_parts l) = 2 \<longrightarrow>
        name (parse_author l) = author_parts l ! 0
        \<and> role (parse_author l) = []
        \<and> affiliation (parse_author l) = author_parts l ! 1)
   \<and> (length (author_parts l) < 2 \<longrightarrow>
        name (parse_author l) = author_clean l
        \<and> role (parse_author l) = []
        \<and> affiliation (parse_author l) = [])
   \<and> (re_search email_re l = None \<and> strip l = l \<longrightarrow> author_clean l = l)
   \<and> list_all (\<lambda>l. l \<noteq> [] \<and> strip l = l) (author_block (paragraphs doc))
   \<and> parse_author ''A. Smith, Editor, Dept X, Univ Y''
       = \<lparr>name = ''A. Smith'', role = ''Editor'', affiliation = ''Dept X, Univ Y'', email = []\<rparr>
   \<and> list_all (\<lambda>part. CHR '','' \<notin> set part \<and> CHR '';'' \<notin> set part) (author_parts l)
   \<and> length (author_parts l)
       = 1 + length (filter (\<lambda>c. c = CHR '','' \<or> c = CHR '';'') (author_clean l))
   \<and> (\<forall>b m g a. re_search email_re l = Some (b, m, g, a)
         \<longrightarrow> l = b @ m @ a \<and> email (parse_author l) = m)
   \<and> parse_author ''J. Roe; j-r.x@a-b.c.org; Lab''
       = \<lparr>name = ''J. Roe'', role = [], affiliation = ''Lab'', email = ''j-r.x@a-b.c.org''\<rparr>
   \<and> parse_author ''Ann Lee; Univ Z''
       = \<lparr>name = ''Ann Lee'', role = [], affiliation = ''Univ Z'', email = []\<rparr>
   \<and> parse_author ''Bob Ray bob@x.org''
       = \<lparr>name = ''Bob Ray'', role = [], affiliation = [], email = ''bob@x.org''\<rparr>
   \<and> parse_author ''Kim, Dept A; Univ B, k.im@u-b.edu''
       = \<lparr>name = ''Kim'', role = ''Dept A'', affiliation = ''Univ B, '', email = ''k.im@u-b.edu''\<rparr>
   \<and> parse_author ''a@b.cd x_y@z.org Ann''
       = \<lparr>name = ''Ann'', role = [], affiliation = [], email = ''a@b.cd''\<rparr>"
proof -
  have e: "email (parse_author l) = (case re_search email_re l of Some (b, m, g, a) \<Rightarrow> m | None \<Rightarrow> [])"
    by (simp add: parse_author_def author_email_def Let_def)
  have c: "author_clean l = strip (re_sub email_re [] l)"
    by (simp add: author_clean_def)
  have p: "author_parts l = map strip (re_split comma_semicolon_re (author_clean l))"
    by (simp add: author_parts_def)
  have p3: "3 \<le> length (author_parts l) \<longrightarrow>
        name (parse_author l) = author_parts l ! 0
        \<and> role (parse_author l) = author_parts l ! 1
        \<and> affiliation (parse_author l) = join '', '' (drop 2 (author_parts l))"
    by (simp add: parse_author_def Let_def)
  have p2: "length (author_parts l) = 2 \<longrightarrow>
        name (parse_author l) = author_parts l ! 0
        \<and> role (parse_author l) = []
        \<and> affiliation (parse_author l) = author_parts l ! 1"
    by (simp add: parse_author_def Let_def)
  have p1: "length (author_parts l) < 2 \<longrightarrow>
        name (parse_author l) = author_clean l
        \<and> role (parse_author l) = []
        \<and> affiliation (parse_author l) = []"
    by (simp add: parse_author_def Let_def)
  have w: "re_search email_re l = None \<and> strip l = l \<longrightarrow> author_clean l = l"
    by (simp add: author_clean_def re_sub_no_match)
  have d: "\<forall>b m g a. re_search email_re l = Some (b, m, g, a)
         \<longrightarrow> l = b @ m @ a \<and> email (parse_author l) = m"
    using e by (auto dest: re_search_decompose)
  from extract_docx_authors [of pil doc] e c p p3 p2 p1 w author_block_clean [of "paragraphs doc"]
    smith_author
  have old: "authors (metadata (fst (extract_docx pil doc))) = map parse_author (author_block (paragraphs doc))
   \<and> email (parse_author l) = (case re_search email_re l of Some (b, m, g, a) \<Rightarrow> m | None \<Rightarrow> [])
   \<and> author_clean l = strip (re_sub email_re [] l)
   \<and> author_parts l = map strip (re_split comma_semicolon_re (author_clean l))
   \<and> (3 \<le> length (author_parts l) \<longrightarrow>
        name (parse_author l) = author_parts l ! 0
        \<and> role (parse_author l) = author_parts l ! 1
        \<and> affiliation (parse_author l) = join '', '' (drop 2 (author_parts l)))
   \<and> (length (author_parts l) = 2 \<longrightarrow>
        name (parse_author l) = author_parts l ! 0
        \<and> role (parse_author l) = []
        \<and> affiliation (parse_author l) = author_parts l ! 1)
   \<and> (length (author_parts l) < 2 \<longrightarrow>
        name (parse_author l) = author_clean l
        \<and> role (parse_author l) = []
        \<and> affiliation (parse_author l) = [])
   \<and> (re_search email_re l = None \<and> strip l = l \<longrightarrow> author_clean l = l)
   \<and> list_all (\<lambda>l. l \<noteq> [] \<and> strip l = l) (author_block (paragraphs doc))
   \<and> parse_author ''A. Smith, Editor, Dept X, Univ Y''
       = \<lparr>name = ''A. Smith'', role = ''Editor'', affiliation = ''Dept X, Univ Y'', email = []\<rparr>"
    by blast
  from old author_parts_no_sep [of l] author_parts_count [of l] d
    roe_author lee_author ray_author kim_author two_emails_author
  show ?thesis by blast
qed

theorem parse_author_rule_witness:
  "length (author_parts ''A. Smith, Editor, Dept X, Univ Y'') = 4
   \<and> name (parse_author ''A. Smith, Editor, Dept X, Univ Y'') = ''A. Smith''
   \<and> role (parse_author ''A. Smith, Editor, Dept X, Univ Y'') = ''Editor''
   \<and> affiliation (parse_author ''A. Smith, Editor, Dept X, Univ Y'') = ''Dept X, Univ Y''
   \<and> length (author_parts ''Jane Doe, MIT'') = 2
   \<and> name (parse_author ''Jane Doe, MIT'') = ''Jane Doe''
   \<and> role (parse_author ''Jane Doe, MIT'') = []
   \<and> affiliation (parse_author ''Jane Doe, MIT'') = ''MIT''
   \<and> length (author_parts ''Jane Doe'') = 1
   \<and> re_search email_re ''Jane Doe'' = None
   \<and> strip ''Jane Doe'' = ''Jane Doe''
   \<and> name (parse_author ''Jane Doe'') = ''Jane Doe''
   \<and> role (parse_author ''Jane Doe'') = []
   \<and> affiliation (parse_author ''Jane Doe'') = []
   \<and> re_search email_re ''J. Roe; j-r.x@a-b.c.org; Lab''
       = Some (''J. Roe; '', ''j-r.x@a-b.c.org'', [], ''; Lab'')
   \<and> email (parse_author ''J. Roe; j-r.x@a-b.c.org; Lab'') = ''j-r.x@a-b.c.org''
   \<and> length (author_parts ''J. Roe; j-r.x@a-b.c.org; Lab'') = 3
   \<and> name (parse_author ''J. Roe; j-r.x@a-b.c.org; Lab'') = ''J. Roe''
   \<and> role (parse_author ''J. Roe; j-r.x@a-b.c.org; Lab'') = []
   \<and> affiliation (parse_author ''J. Roe; j-r.x@a-b.c.org; Lab'') = ''Lab''
   \<and> length (author_parts ''Ann Lee; Univ Z'') = 2
   \<and> name (parse_author ''Ann Lee; Univ Z'') = ''Ann Lee''
   \<and> role (parse_author ''Ann Lee; Univ Z'') = []
   \<and> affiliation (parse_author ''Ann Lee; Univ Z'') = ''Univ Z''
   \<and> length (author_parts ''Bob Ray bob@x.org'') = 1
   \<and> author_clean ''Bob Ray bob@x.org'' = ''Bob Ray''
   \<and> name (parse_author ''Bob Ray bob@x.org'') = ''Bob Ray''
   \<and> email (parse_author ''Bob Ray bob@x.org'') = ''bob@x.org''"
proof -
  have l3: "3 \<le> length (author_parts ''A. Smith, Editor, Dept X, Univ Y'')"
    by (simp add: smith_parts)
  have l2: "length (author_parts ''Jane Doe, MIT'') = 2"
    by (simp add: two_parts)
  have l1: "length (author_parts ''Jane Doe'') < 2"
    by (simp add: one_part)
  from parse_author_rule [of no_imaging scenario_doc "''A. Smith, Editor, Dept X, Univ Y''"] l3
  have "name (parse_author ''A. Smith, Editor, Dept X, Univ Y'')
          = author_parts ''A. Smith, Editor, Dept X, Univ Y'' ! 0
     \<and> role (parse_author ''A. Smith, Editor, Dept X, Univ Y'')
          = author_parts ''A. Smith, Editor, Dept X, Univ Y'' ! 1
     \<and> affiliation (parse_author ''A. Smith, Editor, Dept X, Univ Y'')
          = join '', '' (drop 2 (author_parts ''A. Smith, Editor, Dept X, Univ Y''))"
    by blast
  then have a: "name (parse_author ''A. Smith, Editor, Dept X, Univ Y'') = ''A. Smith''
     \<and> role (parse_author ''A. Smith, Editor, Dept X, Univ Y'') = ''Editor''
     \<and> affiliation (parse_author ''A. Smith, Editor, Dept X, Univ Y'') = ''Dept X, Univ Y''"
    unfolding smith_parts by simp
  from parse_author_rule [of no_imaging scenario_doc "''Jane Doe, MIT''"] l2
  have "name (parse_author ''Jane Doe, MIT'') = author_parts ''Jane Doe, MIT'' ! 0
     \<and> role (parse_author ''Jane Doe, MIT'') = []
     \<and> affiliation (parse_author ''Jane Doe, MIT'') = author_parts ''Jane Doe, MIT'' ! 1"
    by blast
  then have b: "name (parse_author ''Jane Doe, MIT'') = ''Jane Doe''
     \<and> role (parse_author ''Jane Doe, MIT'') = []
     \<and> affiliation (parse_author ''Jane Doe, MIT'') = ''MIT''"
    unfolding two_parts by simp
  from parse_author_rule [of no_imaging scenario_doc "''Jane Doe''"] l1
    one_part_no_email one_part_strip
  have "name (parse_author ''Jane Doe'') = author_clean ''Jane Doe''
     \<and> role (parse_author ''Jane Doe'') = []
     \<and> affiliation (parse_author ''Jane Doe'') = []
     \<and> author_clean ''Jane Doe'' = ''Jane Doe''"
    by blast
  then have c: "name (parse_author ''Jane Doe'') = ''Jane Doe''
     \<and> role (parse_author ''Jane Doe'') = []
     \<and> affiliation (parse_author ''Jane Doe'') = []"
    by simp
  have n: "length (author_parts ''A. Smith, Editor, Dept X, Univ Y'') = 4
     \<and> length (author_parts ''Jane Doe, MIT'') = 2
     \<and> length (author_parts ''Jane Doe'') = 1"
    by (simp add: smith_parts two_parts one_part)
  have r3: "3 \<le> length (author_parts ''J. Roe; j-r.x@a-b.c.org; Lab'')"
    by (simp add: roe_parts)
  from parse_author_rule [of no_imaging scenario_doc "''J. Roe; j-r.x@a-b.c.org; Lab''"] r3 roe_search
  have "name (parse_author ''J. Roe; j-r.x@a-b.c.org; Lab'')
          = author_parts ''J. Roe; j-r.x@a-b.c.org; Lab'' ! 0
     \<and> role (parse_author ''J. Roe; j-r.x@a-b.c.org; Lab'')
          = author_parts ''J. Roe; j-r.x@a-b.c.org; Lab'' ! 1
     \<and> affiliation (parse_author ''J. Roe; j-r.x@a-b.c.org; Lab'')
          = join '', '' (drop 2 (author_parts ''J. Roe; j-r.x@a-b.c.org; Lab''))
     \<and> email (parse_author ''J. Roe; j-r.x@a-b.c.org; Lab'') = ''j-r.x@a-b.c.org''"
    by blast
  then have r: "name (parse_author ''J. Roe; j-r.x@a-b.c.org; Lab'') = ''J. Roe''
     \<and> role (parse_author ''J. Roe; j-r.x@a-b.c.org; Lab'') = []
     \<and> affiliation (parse_author ''J. Roe; j-r.x@a-b.c.org; Lab'') = ''Lab''
     \<and> email (parse_author ''J. Roe; j-r.x@a-b.c.org; Lab'') = ''j-r.x@a-b.c.org''"
    unfolding roe_parts by simp
  have e2: "length (author_parts ''Ann Lee; Univ Z'') = 2"
    by (simp add: lee_parts)
  from parse_author_rule [of no_imaging scenario_doc "''Ann Lee; Univ Z''"] e2
  have "name (parse_author ''Ann Lee; Univ Z'') = author_parts ''Ann Lee; Univ Z'' ! 0
     \<and> role (parse_author ''Ann Lee; Univ Z'') = []
     \<and> affiliation (parse_author ''Ann Lee; Univ Z'') = author_parts ''Ann Lee; Univ Z'' ! 1"
    by blast
  then have e: "name (parse_author ''Ann Lee; Univ Z'') = ''Ann Lee''
     \<and> role (parse_author ''Ann Lee; Univ Z'') = []
     \<and> affiliation (parse_author ''Ann Lee; Univ Z'') = ''Univ Z''"
    unfolding lee_parts by simp
  have y1: "length (author_parts ''Bob Ray bob@x.org'') < 2"
    by (simp add: ray_parts)
  from parse_author_rule [of no_imaging scenario_doc "''Bob Ray bob@x.org''"] y1
  have "name (parse_author ''Bob Ray bob@x.org'') = author_clean ''Bob Ray bob@x.org''
     \<and> parse_author ''Bob Ray bob@x.org''
         = \<lparr>name = ''Bob Ray'', role = [], affiliation = [], email = ''bob@x.org''\<rparr>"
    by blast
  then have y: "name (parse_author ''Bob Ray bob@x.org'') = ''Bob Ray''
     \<and> email (parse_author ''Bob Ray bob@x.org'') = ''bob@x.org''"
    by simp
  have m: "length (author_parts ''J. Roe; j-r.x@a-b.c.org; Lab'') = 3
     \<and> length (author_parts ''Ann Lee; Univ Z'') = 2
     \<and> length (author_parts ''Bob Ray bob@x.org'') = 1"
    by (simp add: roe_parts lee_parts ray_parts)
  from a b c n one_part_no_email one_part_strip r e y m roe_search ray_clean
  show ?thesis by blast
qed
section \<open>The styled scenario (C5)\<close>

lemma scenario_doc_result:
  "extract_docx pil scenario_doc
   = (\<lparr>metadata =
         \<lparr>title = ''Title'',
          authors = [\<lparr>name = ''Jane Doe'', role = ''PI'', affiliation = ''MIT'', email = []\<rparr>],
          abstract = ''This is the abstract.'',
          keywords = [''alpha'', ''beta''],
          figures = []\<rparr>,
       body = [Section ''Intro'' [Paragraph ''Hello world.'']],
       references = [],
       tables = []\<rparr>,
      \<lparr>saved = [], printed = []\<rparr>)"
  by code_simp

text \<open>
  C5, as stated, fails: the author line of the scenario has three parts, so its second
  part is the role and its third the affiliation. The role is not empty and the
  affiliation is not \<^verbatim>\<open>PI\<close>.
\<close>

theorem scenario_author_counterexample:
  "map role (authors (metadata (fst (extract_docx no_imaging scenario_doc)))) = [''PI'']
   \<and> map affiliation (authors (metadata (fst (extract_docx no_imaging scenario_doc)))) = [''MIT'']"
  by (simp add: scenario_doc_result)

text \<open>
  C5, amended. For the scenario the extractor returns the title \<^verbatim>\<open>Title\<close>, exactly one
  author with name \<^verbatim>\<open>Jane Doe\<close>, role \<^verbatim>\<open>PI\<close>, affiliation \<^verbatim>\<open>MIT\<close> and no email, the abstract
  \<^verbatim>\<open>This is the abstract.\<close>, the keywords \<^verbatim>\<open>alpha\<close> and \<^verbatim>\<open>beta\<close>, and a body of one Section
  \<^verbatim>\<open>Intro\<close> with the one Paragraph \<^verbatim>\<open>Hello world.\<close>; there are no figures, tables or
  references, and nothing is written or printed.
\<close>

theorem scenario_result:
  "extract_docx pil scenario_doc
   = (\<lparr>metadata =
         \<lparr>title = ''Title'',
          authors = [\<lparr>name = ''Jane Doe'', role = ''PI'', affiliation = ''MIT'', email = []\<rparr>],
          abstract = ''This is the abstract.'',
          keywords = [''alpha'', ''beta''],
          figures = []\<rparr>,
       body = [Section ''Intro'' [Paragraph ''Hello world.'']],
       references = [],
       tables = []\<rparr>,
      \<lparr>saved = [], printed = []\<rparr>)"
  by (rule scenario_doc_result)
section \<open>Tables in the body (C6)\<close>

lemma table_page_result:
  "extract_pdf (\<lambda>p. True) [table_page]
   = Inr (\<lparr>metadata = \<lparr>title = ''Title'', authors = [], abstract = [], keywords = [], figures = []\<rparr>,
           body = [Paragraph ''Body text''],
           references = [],
           tables = [\<lparr>label = ''Table1'', header = [Some ''Name''], rows = [[Some ''a'']]\<rparr>]\<rparr>,
          \<lparr>saved = [], printed = []\<rparr>)"
  by code_simp

lemma table_doc_result:
  "fst (extract_docx pil table_doc)
   = \<lparr>metadata = \<lparr>title = ''Title'', authors = [], abstract = [], keywords = [], figures = []\<rparr>,
      body = [Section ''Results''
                [Paragraph ''See the table.'',
                 Table \<lparr>label = ''Table1'', header = [''Name'', ''Value''], rows = [[''a'', ''1'']]\<rparr>]],
      references = [],
      tables = [\<lparr>label = ''Table1'', header = [''Name'', ''Value''], rows = [[''a'', ''1'']]\<rparr>]\<rparr>"
  by code_simp

lemma extract_pdf_body_paragraphs:
  "extract_pdf can_write pages = Inr (c, e) \<Longrightarrow> list_all is_paragraph (body c)"
  by (auto simp: extract_pdf_def Let_def list_all_iff split: sum.splits)

lemma extract_docx_tables_in_last:
  "list_all (\<lambda>t. body (fst (extract_docx pil doc)) \<noteq> []
               \<and> (\<exists>h cs. last (body (fst (extract_docx pil doc))) = Section h cs \<and> Table t \<in> set cs))
     (tables (fst (extract_docx pil doc)))"
  using table_loop_in_last [OF body_before_tables_sections, of "doc_tables doc" pil doc]
  by (simp add: extract_docx_body extract_docx_tables tables_in_last_def split: prod.splits)

text \<open>
  C6, as stated, fails for the paginated extractor: for a page with a title, a line of
  text and one table, the table is in \<^verbatim>\<open>tables\<close> and the body is the one Paragraph; no
  Section holds the table.
\<close>

theorem tables_in_body_counterexample:
  "extract_pdf (\<lambda>p. True) [table_page]
   = Inr (\<lparr>metadata = \<lparr>title = ''Title'', authors = [], abstract = [], keywords = [], figures = []\<rparr>,
           body = [Paragraph ''Body text''],
           references = [],
           tables = [\<lparr>label = ''Table1'', header = [Some ''Name''], rows = [[Some ''a'']]\<rparr>]\<rparr>,
          \<lparr>saved = [], printed = []\<rparr>)"
  by (rule table_page_result)

text \<open>
  C6, amended. For every extraction by the styled-document extractor, every Table of the
  top-level \<^verbatim>\<open>tables\<close> sequence is also a content node of the last Section of the body (the
  synthesized \<^verbatim>\<open>Tables\<close> Section when the body was empty). The paginated extractor appends
  its tables to the top-level sequence only: its body holds Paragraph nodes only.
\<close>

theorem tables_in_body:
  "list_all (\<lambda>t. body (fst (extract_docx pil doc)) \<noteq> []
               \<and> (\<exists>h cs. last (body (fst (extract_docx pil doc))) = Section h cs \<and> Table t \<in> set cs))
     (tables (fst (extract_docx pil doc)))
   \<and> (\<forall>c e. extract_pdf can_write pages = Inr (c, e) \<longrightarrow> list_all is_paragraph (body c))"
  using extract_docx_tables_in_last extract_pdf_body_paragraphs by blast

theorem tables_in_body_witness:
  "tables (fst (extract_docx no_imaging table_doc))
     = [\<lparr>label = ''Table1'', header = [''Name'', ''Value''], rows = [[''a'', ''1'']]\<rparr>]
   \<and> last (body (fst (extract_docx no_imaging table_doc)))
     = Section ''Results''
         [Paragraph ''See the table.'',
          Table \<lparr>label = ''Table1'', header = [''Name'', ''Value''], rows = [[''a'', ''1'']]\<rparr>]
   \<and> list_all is_paragraph [Paragraph ''Body text'' :: string option node]"
  using tables_in_body [of no_imaging table_doc "\<lambda>p. True" "[table_page]"]
  by (simp add: table_doc_result table_page_result)
section \<open>Image failures (C7)\<close>

text \<open>
  C7. In the paginated extractor no handler surrounds the writing of an image file. For a
  page with one image and an output directory that takes no file, the write of
  \<^verbatim>\<open>image_1_1.png\<close> raises and the exception leaves \<^verbatim>\<open>extract_pdf\<close>: the call fails instead
  of dropping the figure.
\<close>

theorem extract_pdf_write_failure:
  "extract_pdf (\<lambda>path. False) [image_page] = Inl (WriteFailed ''extracted_images/image_1_1.png'')"
  by code_simp

section \<open>References of the paginated extractor (C9)\<close>

lemma refs_page_result:
  "extract_pdf (\<lambda>p. True) [refs_page]
   = Inr (\<lparr>metadata = \<lparr>title = ''Title'', authors = [], abstract = [], keywords = [], figures = []\<rparr>,
           body = [Paragraph ''Body text'', Paragraph ''References'', Paragraph ''[1] Foo, 2020''],
           references = [],
           tables = []\<rparr>,
          \<lparr>saved = [], printed = []\<rparr>)"
  by code_simp

text \<open>
  C9. Whenever the paginated extractor returns, the \<^verbatim>\<open>references\<close> of the result are the
  empty sequence, also for a document with a references section.
\<close>

theorem extract_pdf_no_references:
  "extract_pdf can_write pages = Inr (c, e) \<Longrightarrow> references c = []"
  by (auto simp: extract_pdf_def Let_def split: sum.splits)

theorem extract_pdf_no_references_witness:
  "extract_pdf (\<lambda>p. True) [refs_page]
   = Inr (\<lparr>metadata = \<lparr>title = ''Title'', authors = [], abstract = [], keywords = [], figures = []\<rparr>,
           body = [Paragraph ''Body text'', Paragraph ''References'', Paragraph ''[1] Foo, 2020''],
           references = [],
           tables = []\<rparr>,
          \<lparr>saved = [], printed = []\<rparr>)
   \<and> references \<lparr>metadata = \<lparr>title = ''Title'', authors = [], abstract = [], keywords = [], figures = []\<rparr>,
           body = [Paragraph ''Body text'', Paragraph ''References'', Paragraph ''[1] Foo, 2020''],
           references = [],
           tables = ([] :: string option table_data list)\<rparr> = []"
  using extract_pdf_no_references [OF refs_page_result] refs_page_result by simp

section \<open>The reference pass (C10)\<close>

lemma extract_docx_references:
  "references (fst (extract_docx pil doc)) = extract_references (paragraphs doc)"
  by (simp add: extract_docx_def Let_def split: prod.splits)

lemma find_ref_section_first:
  "find_ref_section ps k = Some j \<Longrightarrow>
   k \<le> j \<and> j - k < length ps \<and> is_ref_heading (ps ! (j - k))
   \<and> (\<forall>i < j - k. \<not> is_ref_heading (ps ! i))"
proof (induction ps arbitrary: k)
  case Nil
  then show ?case by simp
next
  case (Cons p ps)
  show ?case
  proof (cases "is_ref_heading p")
    case True
    with Cons.prems show ?thesis by (simp add: is_ref_heading_def)
  next
    case False
    with Cons.prems have f: "find_ref_section ps (Suc k) = Some j"
      by (simp add: is_ref_heading_def)
    from Cons.IH [OF f] have ih: "Suc k \<le> j" "j - Suc k < length ps"
      "is_ref_heading (ps ! (j - Suc k))" "\<forall>i < j - Suc k. \<not> is_ref_heading (ps ! i)"
      by auto
    from ih(1) have eq: "j - k = Suc (j - Suc k)" by simp
    have "\<forall>i < j - k. \<not> is_ref_heading ((p # ps) ! i)"
    proof (intro allI impI)
      fix i assume "i < j - k"
      then show "\<not> is_ref_heading ((p # ps) ! i)"
        using False ih(4) eq by (cases i) auto
    qed
    with ih eq show ?thesis by simp
  qed
qed

lemma find_ref_section_head:
  "is_ref_heading p \<Longrightarrow> find_ref_section (p # ps) 0 = Some 0"
  by (simp add: is_ref_heading_def)

lemma refs_first_doc_paras:
  "paragraphs refs_first_doc = normal ''References'' # [normal ''Foo, 2020'', normal ''Bar, 2021'']"
  by (simp add: refs_first_doc_def)

lemma refs_first_doc_match: "is_ref_heading (normal ''References'')"
  by code_simp

lemma refs_first_doc_following:
  "map (\<lambda>p. clean_text (para_text p) \<noteq> [] \<and> \<not> is_heading p) [normal ''Foo, 2020'', normal ''Bar, 2021'']
   = [True, True]"
  by code_simp

lemma refs_last_doc_result:
  "references (fst (extract_docx pil refs_last_doc))
   = [\<lparr>ref_id = ''1'', citation = ''Foo, 2020''\<rparr>, \<lparr>ref_id = ''2'', citation = ''Bar, 2021''\<rparr>]"
  by code_simp

text \<open>
  C10. If the first paragraph of the document matches \<^verbatim>\<open>references?\<close>, the references of
  the result are empty, whatever follows. And when the references are not empty, the first
  matching paragraph has a nonzero index \<^verbatim>\<open>j\<close>, and the references are those read from the
  paragraphs after it.
\<close>

theorem references_need_nonzero_index:
  "(\<forall>p ps. paragraphs doc = p # ps \<and> is_ref_heading p
        \<longrightarrow> references (fst (extract_docx pil doc)) = [])
   \<and> (references (fst (extract_docx pil doc)) \<noteq> []
        \<longrightarrow> (\<exists>j. 0 < j \<and> j < length (paragraphs doc)
                 \<and> is_ref_heading (paragraphs doc ! j)
                 \<and> (\<forall>i < j. \<not> is_ref_heading (paragraphs doc ! i))
                 \<and> references (fst (extract_docx pil doc))
                     = refs_loop (drop (j + 1) (paragraphs doc)) [] 1))"
proof (intro conjI allI impI)
  fix p ps
  assume a: "paragraphs doc = p # ps \<and> is_ref_heading p"
  then have "find_ref_section (paragraphs doc) 0 = Some 0"
    using find_ref_section_head [of p ps] by simp
  then show "references (fst (extract_docx pil doc)) = []"
    unfolding extract_docx_references extract_references_def by simp
next
  assume ne: "references (fst (extract_docx pil doc)) \<noteq> []"
  then obtain j where j: "find_ref_section (paragraphs doc) 0 = Some j" "j \<noteq> 0"
    and r: "references (fst (extract_docx pil doc)) = refs_loop (drop (j + 1) (paragraphs doc)) [] 1"
    by (auto simp: extract_docx_references extract_references_def split: option.splits if_splits)
  from find_ref_section_first [OF j(1)] j(2) r
  show "\<exists>j. 0 < j \<and> j < length (paragraphs doc)
          \<and> is_ref_heading (paragraphs doc ! j)
          \<and> (\<forall>i < j. \<not> is_ref_heading (paragraphs doc ! i))
          \<and> references (fst (extract_docx pil doc))
              = refs_loop (drop (j + 1) (paragraphs doc)) [] 1"
    by (intro exI [of _ j]) simp
qed

theorem references_need_nonzero_index_witness:
  "paragraphs refs_first_doc = normal ''References'' # [normal ''Foo, 2020'', normal ''Bar, 2021'']
   \<and> is_ref_heading (normal ''References'')
   \<and> map (\<lambda>p. clean_text (para_text p) \<noteq> [] \<and> \<not> is_heading p) [normal ''Foo, 2020'', normal ''Bar, 2021'']
     = [True, True]
   \<and> references (fst (extract_docx no_imaging refs_first_doc)) = []
   \<and> references (fst (extract_docx no_imaging refs_last_doc))
     = [\<lparr>ref_id = ''1'', citation = ''Foo, 2020''\<rparr>, \<lparr>ref_id = ''2'', citation = ''Bar, 2021''\<rparr>]"
  using references_need_nonzero_index [of refs_first_doc no_imaging]
    refs_first_doc_paras refs_first_doc_match refs_first_doc_following refs_last_doc_result
  by simp
section \<open>Properties of the converter\<close>

lemma unique_loop_firsts:
  "fst (unique_loop rs (U, S)) = U @ firsts S rs"
  by (induction rs arbitrary: U S) auto

lemma firsts_citations:
  "citation ` set (firsts S rs) = citation ` set rs - S"
  by (induction rs arbitrary: S) auto

lemma firsts_distinct:
  "distinct (map citation (firsts S rs))"
proof (induction rs arbitrary: S)
  case Nil
  show ?case by simp
next
  case (Cons r rs)
  have "citation r \<notin> citation ` set (firsts (insert (citation r) S) rs)"
    by (simp add: firsts_citations)
  with Cons show ?case by simp
qed

lemma firsts_subseq:
  "subseq (firsts S rs) rs"
  by (induction rs arbitrary: S) auto

lemma firsts_find:
  "r \<in> set (firsts S rs) \<Longrightarrow> find (\<lambda>x. citation x = citation r) rs = Some r"
proof (induction rs arbitrary: S)
  case Nil
  then show ?case by simp
next
  case (Cons a rs)
  show ?case
  proof (cases "citation a \<in> S")
    case True
    with Cons.prems have mem: "r \<in> set (firsts S rs)" by simp
    then have "citation r \<in> citation ` set rs - S"
      using firsts_citations [of S rs] by blast
    with True have "citation a \<noteq> citation r" by auto
    with Cons.IH [OF mem] show ?thesis by simp
  next
    case False
    with Cons.prems consider "r = a" | "r \<in> set (firsts (insert (citation a) S) rs)"
      by auto
    then show ?thesis
    proof cases
      case 1
      then show ?thesis by simp
    next
      case 2
      then have "citation r \<in> citation ` set rs - insert (citation a) S"
        using firsts_citations [of "insert (citation a) S" rs] by blast
      then have "citation a \<noteq> citation r" by auto
      with Cons.IH [OF 2] show ?thesis by simp
    qed
  qed
qed

text \<open>
  C1. The escape step does not keep the escaped form of a special character: the last
  replacement rewrites every backslash, also the ones the nine earlier replacements have
  just put in front of the characters they escape. For the one-character text \<^verbatim>\<open>&\<close> the
  result is \<^verbatim>\<open>\textbackslash&\<close>: the escaped form \<^verbatim>\<open>\&\<close> does not occur in it, and the
  ampersand stands unescaped after a complete control word.
\<close>

theorem clean_latex_text_ampersand:
  "clean_latex_text ''&'' = backslash # ''textbackslash&''"
  by (simp add: clean_latex_text_def replace_def backslash_def)

text \<open>
  C8. The bibliography has one entry per distinct citation text: the citations of the kept
  references are pairwise different and are exactly the citations of the input, the kept
  references are a subsequence of the input (so the order of first occurrences is
  preserved), each kept reference is the first one of the input with its citation text,
  whatever its id, and the number of entries is the number of distinct citation texts.
\<close>

theorem format_references_dedup:
  "distinct (map citation (unique_refs refs))
   \<and> set (map citation (unique_refs refs)) = set (map citation refs)
   \<and> subseq (unique_refs refs) refs
   \<and> (\<forall>r \<in> set (unique_refs refs). find (\<lambda>x. citation x = citation r) refs = Some r)
   \<and> length (bib_entries refs) = card (citation ` set refs)
   \<and> format_references refs = (if refs = [] then [] else join [newline] (map bibitem (unique_refs refs)))"
proof -
  have u: "unique_refs refs = firsts {} refs"
    by (simp add: unique_refs_def unique_loop_firsts)
  have d: "distinct (map citation (unique_refs refs))"
    by (simp add: u firsts_distinct)
  have c: "set (map citation (unique_refs refs)) = set (map citation refs)"
    using firsts_citations [of "{}" refs] by (simp add: u)
  have s: "subseq (unique_refs refs) refs"
    by (simp add: u firsts_subseq)
  have f: "\<forall>r \<in> set (unique_refs refs). find (\<lambda>x. citation x = citation r) refs = Some r"
    by (simp add: u firsts_find)
  have "length (bib_entries refs) = length (map citation (unique_refs refs))"
    by (simp add: bib_entries_def)
  also have "\<dots> = card (set (map citation (unique_refs refs)))"
    using distinct_card [OF d] by simp
  also have "\<dots> = card (citation ` set refs)"
    using c by simp
  finally have l: "length (bib_entries refs) = card (citation ` set refs)" .
  have e: "format_references refs = (if refs = [] then [] else join [newline] (map bibitem (unique_refs refs)))"
    by (simp add: format_references_def bib_entries_def)
  from d c s f l e show ?thesis by blast
qed

theorem format_references_dedup_witness:
  "unique_refs [\<lparr>ref_id = ''1'', citation = ''Foo, 2020''\<rparr>, \<lparr>ref_id = ''2'', citation = ''Foo, 2020''\<rparr>]
     = [\<lparr>ref_id = ''1'', citation = ''Foo, 2020''\<rparr>]
   \<and> find (\<lambda>x. citation x = ''Foo, 2020'')
        [\<lparr>ref_id = ''1'', citation = ''Foo, 2020''\<rparr>, \<lparr>ref_id = ''2'', citation = ''Foo, 2020''\<rparr>]
       = Some \<lparr>ref_id = ''1'', citation = ''Foo, 2020''\<rparr>
   \<and> length (bib_entries [\<lparr>ref_id = ''1'', citation = ''Foo, 2020''\<rparr>, \<lparr>ref_id = ''2'', citation = ''Foo, 2020''\<rparr>]) = 1"
  using format_references_dedup [of "[\<lparr>ref_id = ''1'', citation = ''Foo, 2020''\<rparr>, \<lparr>ref_id = ''2'', citation = ''Foo, 2020''\<rparr>]"]
  by (simp add: unique_refs_def bib_entries_def)

end
